theory Spec2Isabelle
  imports Complex_Main
begin

section \<open>Python strings and numbers used by camera.py\<close>

text \<open>
  \<^verbatim>\<open>str(n)\<close> of a Python integer: decimal digits, most significant first, a leading
  minus sign for a negative number. Characters are ASCII, so a Python character is a
  \<^typ>\<open>char\<close>.
\<close>

definition digit_char :: "nat \<Rightarrow> char" where
  "digit_char d = char_of (48 + d)"

fun str_nat :: "nat \<Rightarrow> string" where
  "str_nat n =
     (if n < 10 then [digit_char n]
      else str_nat (n div 10) @ [digit_char (n mod 10)])"

declare str_nat.simps [simp del]

definition str_int :: "int \<Rightarrow> string" where
  "str_int i = (if i < 0 then CHR ''-'' # str_nat (nat (- i)) else str_nat (nat i))"

text \<open>\<^verbatim>\<open>'%0wd' % n\<close> for a non-negative n: the decimal digits, padded on the left with zeros.\<close>

definition zfill :: "nat \<Rightarrow> string \<Rightarrow> string" where
  "zfill w s = replicate (w - length s) CHR ''0'' @ s"

text \<open>\<^verbatim>\<open>s.split(sep)[0]\<close>: the part of s before the first occurrence of sep (all of s when
  there is none).\<close>

definition split_first :: "char \<Rightarrow> string \<Rightarrow> string" where
  "split_first sep s = takeWhile (\<lambda>c. c \<noteq> sep) s"

text \<open>\<^verbatim>\<open>s.replace(a, b)\<close> for one-character strings a and b.\<close>

definition replace_char :: "char \<Rightarrow> char \<Rightarrow> string \<Rightarrow> string" where
  "replace_char a b s = map (\<lambda>c. if c = a then b else c) s"

text \<open>\<^verbatim>\<open>range(a, b)\<close> and \<^verbatim>\<open>range(a, b, -1)\<close> over Python's unbounded integers.\<close>

definition range_up :: "int \<Rightarrow> int \<Rightarrow> int list" where
  "range_up a b = [a..b - 1]"

definition range_down :: "int \<Rightarrow> int \<Rightarrow> int list" where
  "range_down a b = rev [b + 1..a]"

subsection \<open>datetime\<close>

text \<open>
  A naive \<^verbatim>\<open>datetime.datetime\<close> value, as \<^verbatim>\<open>datetime.datetime.now()\<close> returns it.
  \<^verbatim>\<open>str(d)\<close> is \<^verbatim>\<open>d.isoformat(sep=' ')\<close>: \<^verbatim>\<open>YYYY-MM-DD HH:MM:SS\<close>, followed by
  \<^verbatim>\<open>.ffffff\<close> when the microsecond field is not zero.
\<close>

record datetime =
  year :: nat
  month :: nat
  day :: nat
  hour :: nat
  minute :: nat
  second :: nat
  microsecond :: nat

definition valid_datetime :: "datetime \<Rightarrow> bool" where
  "valid_datetime d =
     (1 \<le> year d \<and> year d \<le> 9999 \<and> 1 \<le> month d \<and> month d \<le> 12 \<and>
      1 \<le> day d \<and> day d \<le> 31 \<and> hour d < 24 \<and> minute d < 60 \<and>
      second d < 60 \<and> microsecond d < 1000000)"

definition str_datetime :: "datetime \<Rightarrow> string" where
  "str_datetime d =
     zfill 4 (str_nat (year d)) @ ''-'' @ zfill 2 (str_nat (month d)) @ ''-'' @
     zfill 2 (str_nat (day d)) @ '' '' @ zfill 2 (str_nat (hour d)) @ '':'' @
     zfill 2 (str_nat (minute d)) @ '':'' @ zfill 2 (str_nat (second d)) @
     (if microsecond d = 0 then [] else ''.'' @ zfill 6 (str_nat (microsecond d)))"

text \<open>The fields of a datetime down to the second: what "second resolution" keeps.\<close>

definition to_second :: "datetime \<Rightarrow> nat \<times> nat \<times> nat \<times> nat \<times> nat \<times> nat" where
  "to_second d = (year d, month d, day d, hour d, minute d, second d)"

section \<open>Session namer\<close>

text \<open>
  \<^verbatim>\<open>get_base_filename_for_images\<close> (camera.py, lines 73 to 87). The module constant
  \<^verbatim>\<open>REAL_PATH\<close> and the clock reading are arguments. Both \<^verbatim>\<open>replace\<close> calls act on the
  whole string, the \<^verbatim>\<open>REAL_PATH\<close> part included.
\<close>

definition get_base_filename_for_images :: "string \<Rightarrow> datetime \<Rightarrow> string" where
  "get_base_filename_for_images REAL_PATH now =
     (let base_filename = REAL_PATH @ ''/photos/'' @ split_first CHR ''.'' (str_datetime now);
          base_filename = replace_char CHR '' '' CHR ''_'' base_filename;
          base_filename = replace_char CHR '':'' CHR ''-'' base_filename
      in base_filename)"

section \<open>Configuration (camera.py, lines 20 to 37)\<close>

text \<open>
  The two debug flags and the settings of the configuration block. \<^verbatim>\<open>total_pics\<close> and
  \<^verbatim>\<open>prep_delay\<close> are assigned first (lines 28 and 29) and overwritten with 1 when
  \<^verbatim>\<open>TESTMODE_FAST\<close> is set (lines 35 to 37).
\<close>

record config =
  TESTMODE_AUTOPRESS_BUTTON :: bool
  TESTMODE_FAST :: bool
  total_pics_setting :: int
  prep_delay_setting :: rat
  REAL_PATH :: string

definition total_pics :: "config \<Rightarrow> int" where
  "total_pics cfg = (if TESTMODE_FAST cfg then 1 else total_pics_setting cfg)"

definition prep_delay :: "config \<Rightarrow> rat" where
  "prep_delay cfg = (if TESTMODE_FAST cfg then 1 else prep_delay_setting cfg)"

definition pin_camera_btn :: int where
  "pin_camera_btn = 21"

definition pin_exit_btn :: int where
  "pin_exit_btn = 13"

definition photo_w :: int where
  "photo_w = 1920"

definition photo_h :: int where
  "photo_h = 1152"

section \<open>The devices: camera, display overlays, file system, GPIO, serial line\<close>

text \<open>
  Exceptions are values. \<^verbatim>\<open>OSError\<close> carries its errno; \<^verbatim>\<open>KeyboardInterrupt\<close> is the
  only one that is not an \<^verbatim>\<open>Exception\<close>.
\<close>

datatype exn = OSError int | KeyboardInterrupt | AttributeError | PiCameraError

definition EEXIST :: int where
  "EEXIST = 17"

definition ENOENT :: int where
  "ENOENT = 2"

definition str_exn :: "exn \<Rightarrow> string" where
  "str_exn e = (case e of
      OSError n \<Rightarrow> ''[Errno '' @ str_int n @ '']''
    | KeyboardInterrupt \<Rightarrow> []
    | AttributeError \<Rightarrow> ''AttributeError''
    | PiCameraError \<Rightarrow> ''PiCameraError'')"

text \<open>
  What the program does to the outside, in order. A renderer handle is the number the
  camera gave the overlay when it was added.
\<close>

datatype event =
    Print string
  | SetAnnotateTextSize int
  | SetAnnotateText string
  | Sleep rat
  | AddOverlay nat string
  | SetLayer nat int
  | SetAlpha nat int
  | RemoveOverlay nat
  | MakeDirs string
  | CaptureStill string
  | StartPreview
  | StopPreview
  | CameraClose
  | GpioCleanup
  | WaitForEdge int int
  | ResetInputBuffer

record overlay =
  ov_handle :: nat
  ov_source :: string
  ov_size :: "int \<times> int"
  ov_padded :: "int \<times> int"
  ov_layer :: int
  ov_alpha :: int

text \<open>
  The state of the devices. \<open>files\<close> maps the path of an image file to its size (the
  asset images and the captured photos); \<open>in_waiting\<close> is the number of unread bytes
  of the serial line; \<open>clock\<close> counts the blocking calls made so far; \<open>trace\<close> is
  the sequence of events so far.
\<close>

record world =
  overlays :: "overlay list"
  next_handle :: nat
  annotate_text :: string
  annotate_text_size :: int
  previewing :: bool
  camera_closed :: bool
  gpio_cleaned :: bool
  dirs :: "string list"
  files :: "(string \<times> (int \<times> int)) list"
  in_waiting :: nat
  clock :: nat
  trace :: "event list"

text \<open>
  What the surroundings decide: the errno with which creating a directory fails (when
  it does), the captures that fail, and the blocking call (counted from 0) during which
  the user presses Ctrl-C.
\<close>

record env =
  mkdir_errno :: "string \<Rightarrow> int option"
  capture_fails :: "string \<Rightarrow> bool"
  interrupt_at :: "nat option"

subsection \<open>Statements that change the devices and may raise\<close>

type_synonym 'a io = "world \<Rightarrow> (exn + 'a) \<times> world"

definition ret :: "'a \<Rightarrow> 'a io" where
  "ret a w = (Inr a, w)"

definition raise :: "exn \<Rightarrow> 'a io" where
  "raise e w = (Inl e, w)"

definition bind_io :: "'a io \<Rightarrow> ('a \<Rightarrow> 'b io) \<Rightarrow> 'b io" where
  "bind_io m f w = (case m w of (Inl e, w') \<Rightarrow> (Inl e, w') | (Inr a, w') \<Rightarrow> f a w')"

definition seq_io :: "'a io \<Rightarrow> 'b io \<Rightarrow> 'b io" where
  "seq_io m k = bind_io m (\<lambda>_. k)"

definition emit :: "event \<Rightarrow> unit io" where
  "emit e w = (Inr (), w\<lparr>trace := trace w @ [e]\<rparr>)"

text \<open>A \<^verbatim>\<open>for\<close> loop over a list: the body for each element in turn, stopping at the
  first exception.\<close>

fun for_each :: "'a list \<Rightarrow> ('a \<Rightarrow> unit io) \<Rightarrow> unit io" where
  "for_each [] body = ret ()"
| "for_each (x # xs) body = seq_io (body x) (for_each xs body)"

text \<open>A call that blocks (a sleep, a wait for an edge, a capture): Ctrl-C during it
  raises \<^verbatim>\<open>KeyboardInterrupt\<close>.\<close>

definition blocking :: "env \<Rightarrow> unit io" where
  "blocking env w =
     (if interrupt_at env = Some (clock w)
      then (Inl KeyboardInterrupt, w\<lparr>clock := clock w + 1\<rparr>)
      else (Inr (), w\<lparr>clock := clock w + 1\<rparr>))"

definition print :: "string \<Rightarrow> unit io" where
  "print s = emit (Print s)"

definition sleep :: "env \<Rightarrow> rat \<Rightarrow> unit io" where
  "sleep env d = seq_io (blocking env) (emit (Sleep d))"

text \<open>\<^verbatim>\<open>Image.open(path)\<close> and the \<^verbatim>\<open>size\<close> of the image; a missing file raises.\<close>

definition Image_open :: "string \<Rightarrow> (int \<times> int) io" where
  "Image_open path w =
     (case map_of (files w) path of
        None \<Rightarrow> (Inl (OSError ENOENT), w)
      | Some sz \<Rightarrow> (Inr sz, w))"

text \<open>\<^verbatim>\<open>camera.add_overlay(data, size=...)\<close>: a new renderer, on layer 0 and opaque.\<close>

definition camera_add_overlay :: "string \<Rightarrow> int \<times> int \<Rightarrow> int \<times> int \<Rightarrow> nat io" where
  "camera_add_overlay source padded sz w =
     (let h = next_handle w in
      (Inr h,
       w\<lparr>overlays :=
            \<lparr>ov_handle = h, ov_source = source, ov_size = sz, ov_padded = padded,
             ov_layer = 0, ov_alpha = 255\<rparr> # overlays w,
          next_handle := h + 1,
          trace := trace w @ [AddOverlay h source]\<rparr>))"

definition set_layer :: "nat \<Rightarrow> int \<Rightarrow> unit io" where
  "set_layer h l w =
     (Inr (),
      w\<lparr>overlays := map (\<lambda>ov. if ov_handle ov = h then ov\<lparr>ov_layer := l\<rparr> else ov) (overlays w),
        trace := trace w @ [SetLayer h l]\<rparr>)"

text \<open>\<^verbatim>\<open>camera.remove_overlay(o)\<close> raises for a renderer the camera does not own.\<close>

definition camera_remove_overlay :: "nat \<Rightarrow> unit io" where
  "camera_remove_overlay h w =
     (if h \<in> set (map ov_handle (overlays w))
      then (Inr (),
            w\<lparr>overlays := filter (\<lambda>ov. ov_handle ov \<noteq> h) (overlays w),
              trace := trace w @ [RemoveOverlay h]\<rparr>)
      else (Inl PiCameraError, w))"

text \<open>
  An overlay id of camera.py is a renderer object or the integer -1. Both are true in a
  condition (\<^verbatim>\<open>if prev_overlay:\<close>); -1 has no \<^verbatim>\<open>alpha\<close> attribute to assign.
\<close>

datatype overlay_id = NoOverlay | Renderer nat

fun truthy :: "overlay_id \<Rightarrow> bool" where
  "truthy NoOverlay = True"
| "truthy (Renderer h) = True"

fun set_alpha :: "overlay_id \<Rightarrow> int \<Rightarrow> unit io" where
  "set_alpha NoOverlay a = raise AttributeError"
| "set_alpha (Renderer h) a =
     (\<lambda>w. (Inr (),
        w\<lparr>overlays := map (\<lambda>ov. if ov_handle ov = h then ov\<lparr>ov_alpha := a\<rparr> else ov) (overlays w),
          trace := trace w @ [SetAlpha h a]\<rparr>))"

definition set_annotate_text_size :: "int \<Rightarrow> unit io" where
  "set_annotate_text_size n w =
     (Inr (), w\<lparr>annotate_text_size := n, trace := trace w @ [SetAnnotateTextSize n]\<rparr>)"

definition set_annotate_text :: "string \<Rightarrow> unit io" where
  "set_annotate_text s w =
     (Inr (), w\<lparr>annotate_text := s, trace := trace w @ [SetAnnotateText s]\<rparr>)"

text \<open>
  \<^verbatim>\<open>os.makedirs(path)\<close>: raises \<^verbatim>\<open>OSError(EEXIST)\<close> when the directory is there, the
  error of the surroundings when the creation fails, and creates it otherwise (the
  missing parents with it; only the directory itself is recorded).
\<close>

definition os_makedirs :: "env \<Rightarrow> string \<Rightarrow> unit io" where
  "os_makedirs env path w =
     (let w1 = w\<lparr>trace := trace w @ [MakeDirs path]\<rparr> in
      if path \<in> set (dirs w) then (Inl (OSError EEXIST), w1)
      else (case mkdir_errno env path of
              Some e \<Rightarrow> (Inl (OSError e), w1)
            | None \<Rightarrow> (Inr (), w1\<lparr>dirs := path # dirs w\<rparr>)))"

text \<open>\<^verbatim>\<open>camera.capture(filename)\<close>: writes a still of the camera's resolution.\<close>

definition camera_capture :: "env \<Rightarrow> string \<Rightarrow> unit io" where
  "camera_capture env filename =
     seq_io (blocking env)
       (\<lambda>w. if capture_fails env filename then (Inl PiCameraError, w)
            else (Inr (),
                  w\<lparr>files := (filename, (photo_w, photo_h)) # files w,
                    trace := trace w @ [CaptureStill filename]\<rparr>))"

definition camera_start_preview :: "unit io" where
  "camera_start_preview w = (Inr (), w\<lparr>previewing := True, trace := trace w @ [StartPreview]\<rparr>)"

definition camera_stop_preview :: "unit io" where
  "camera_stop_preview w = (Inr (), w\<lparr>previewing := False, trace := trace w @ [StopPreview]\<rparr>)"

definition camera_close :: "unit io" where
  "camera_close w = (Inr (), w\<lparr>camera_closed := True, trace := trace w @ [CameraClose]\<rparr>)"

definition GPIO_cleanup :: "unit io" where
  "GPIO_cleanup w = (Inr (), w\<lparr>gpio_cleaned := True, trace := trace w @ [GpioCleanup]\<rparr>)"

text \<open>\<^verbatim>\<open>GPIO.wait_for_edge(pin, GPIO.FALLING, timeout=t)\<close>: the channel when the edge came
  within the timeout, \<^verbatim>\<open>None\<close> otherwise.\<close>

definition GPIO_wait_for_edge :: "env \<Rightarrow> int \<Rightarrow> int \<Rightarrow> bool \<Rightarrow> (int option) io" where
  "GPIO_wait_for_edge env pin timeout edge =
     seq_io (blocking env)
       (seq_io (emit (WaitForEdge pin timeout)) (ret (if edge then Some pin else None)))"

text \<open>The serial line: bytes arrive from outside; the program reads how many wait
  (\<^verbatim>\<open>ser.in_waiting\<close>) and discards them (\<^verbatim>\<open>ser.reset_input_buffer()\<close>).\<close>

definition serial_receive :: "nat \<Rightarrow> unit io" where
  "serial_receive n w = (Inr (), w\<lparr>in_waiting := in_waiting w + n\<rparr>)"

definition ser_in_waiting :: "nat io" where
  "ser_in_waiting w = (Inr (in_waiting w), w)"

definition ser_reset_input_buffer :: "unit io" where
  "ser_reset_input_buffer w = (Inr (), w\<lparr>in_waiting := 0, trace := trace w @ [ResetInputBuffer]\<rparr>)"

section \<open>Helper functions (camera.py, lines 65 to 139)\<close>

definition print_overlay :: "string \<Rightarrow> int \<Rightarrow> unit io" where
  "print_overlay string_to_print size_arg =
     seq_io (print string_to_print)
       (seq_io (set_annotate_text_size size_arg)
          (set_annotate_text string_to_print))"

definition remove_overlay :: "overlay_id \<Rightarrow> unit io" where
  "remove_overlay overlay_id =
     (case overlay_id of
        NoOverlay \<Rightarrow> ret ()
      | Renderer h \<Rightarrow> camera_remove_overlay h)"

text \<open>
  \<^verbatim>\<open>overlay_image(image_path, duration=0, layer=3)\<close>. The padded image is known by its
  size; \<^verbatim>\<open>tobytes\<close> and \<^verbatim>\<open>tostring\<close> give the same data. A duration of \<^verbatim>\<open>False\<close> is the
  number 0.
\<close>

definition overlay_image :: "env \<Rightarrow> string \<Rightarrow> rat \<Rightarrow> int \<Rightarrow> overlay_id io" where
  "overlay_image env image_path duration layer =
     bind_io (Image_open image_path) (\<lambda>img_size.
       let pad = (((fst img_size + 31) div 32) * 32, ((snd img_size + 15) div 16) * 16) in
       bind_io (camera_add_overlay image_path pad img_size) (\<lambda>o_id.
         seq_io (set_layer o_id layer)
           (if duration > 0
            then seq_io (sleep env duration)
                   (seq_io (camera_remove_overlay o_id) (ret NoOverlay))
            else ret (Renderer o_id))))"

section \<open>Screens (camera.py, lines 145 to 211)\<close>

definition prep_for_photo_screen :: "config \<Rightarrow> env \<Rightarrow> int \<Rightarrow> unit io" where
  "prep_for_photo_screen cfg env photo_number =
     (let get_ready_image = REAL_PATH cfg @ ''/assets/get_ready.png'' in
      seq_io (overlay_image env get_ready_image (prep_delay cfg) 3) (ret ()))"

text \<open>The \<^verbatim>\<open>try\<close> block of \<^verbatim>\<open>taking_photo\<close> (lines 163 to 168): an \<^verbatim>\<open>OSError\<close> whose
  errno is \<^verbatim>\<open>EEXIST\<close> is swallowed, every other exception goes on.\<close>

definition ensure_dir :: "env \<Rightarrow> string \<Rightarrow> unit io" where
  "ensure_dir env dirname w =
     (case os_makedirs env dirname w of
        (Inl (OSError e), w') \<Rightarrow> if e \<noteq> EEXIST then (Inl (OSError e), w') else (Inr (), w')
      | r \<Rightarrow> r)"

definition photo_filename :: "config \<Rightarrow> string \<Rightarrow> int \<Rightarrow> string" where
  "photo_filename cfg filename_prefix photo_number =
     filename_prefix @ ''/'' @ str_int photo_number @ ''of'' @ str_int (total_pics cfg) @ ''.jpg''"

definition taking_photo :: "config \<Rightarrow> env \<Rightarrow> int \<Rightarrow> string \<Rightarrow> unit io" where
  "taking_photo cfg env photo_number filename_prefix =
     (let dirname = filename_prefix;
          filename = photo_filename cfg filename_prefix photo_number
      in seq_io (ensure_dir env dirname)
        (seq_io (for_each (range_down 3 0)
                   (\<lambda>counter. seq_io (print_overlay (str_int counter) 160) (sleep env 1)))
        (seq_io (set_annotate_text [])
        (seq_io (camera_capture env filename)
        (seq_io (overlay_image env (REAL_PATH cfg @ ''/assets/white.png'') (1 / 10) 3)
                (print (''Photo ('' @ str_int photo_number @ '') saved: '' @ filename)))))))"

text \<open>The loop of \<^verbatim>\<open>playback_screen\<close> (lines 198 to 205), with \<^verbatim>\<open>prev_overlay\<close> passed
  from one round to the next; it returns the last value of \<^verbatim>\<open>prev_overlay\<close>.\<close>

fun playback_loop :: "config \<Rightarrow> env \<Rightarrow> string \<Rightarrow> int list \<Rightarrow> overlay_id \<Rightarrow> overlay_id io" where
  "playback_loop cfg env filename_prefix [] prev_overlay = ret prev_overlay"
| "playback_loop cfg env filename_prefix (photo_number # rest) prev_overlay =
     (let filename = photo_filename cfg filename_prefix photo_number in
      bind_io (overlay_image env filename 0 (3 + total_pics cfg)) (\<lambda>this_overlay.
        seq_io (if truthy prev_overlay then remove_overlay prev_overlay else ret ())
          (seq_io (sleep env 1)
             (playback_loop cfg env filename_prefix rest this_overlay))))"

definition playback_screen :: "config \<Rightarrow> env \<Rightarrow> string \<Rightarrow> unit io" where
  "playback_screen cfg env filename_prefix =
     seq_io (print ''Processing...'')
       (let processing_image = REAL_PATH cfg @ ''/assets/processing.png'' in
        bind_io (overlay_image env processing_image 0 3) (\<lambda>prev_overlay.
        bind_io (playback_loop cfg env filename_prefix (range_up 1 (total_pics cfg + 1)) prev_overlay)
          (\<lambda>prev_overlay.
        seq_io (remove_overlay prev_overlay)
          (seq_io (print ''All done!'')
             (let finished_image = REAL_PATH cfg @ ''/assets/all_done.png'' in
              seq_io (overlay_image env finished_image 20 3) (ret ()))))))"

section \<open>The main loop (camera.py, lines 214 to 287)\<close>

text \<open>
  What one round of the loop reads from outside: whether each button had a falling edge
  within its timeout, the bytes that arrived on the serial line since the round before,
  the clock reading used when a session starts, and the bytes that arrive on the serial
  line while a session runs.
\<close>

record cycle_input =
  camera_edge :: bool
  exit_edge :: bool
  serial_arrived :: nat
  now :: datetime
  serial_during_session :: nat

record idle_state =
  blink_i :: int
  overlay_1 :: overlay_id
  overlay_2 :: overlay_id

definition blink_speed :: int where
  "blink_speed = 2"

text \<open>
  Lines 237 to 253: the two waits, the exit test, the serial test and the auto-press
  flag. \<open>Exit\<close> is the \<^verbatim>\<open>return\<close> of line 242, \<open>NoInput\<close> is \<^verbatim>\<open>is_pressed is None\<close> at
  line 253, \<open>Capture\<close> is any other value of \<^verbatim>\<open>is_pressed\<close> there (\<^verbatim>\<open>True\<close> is the
  integer 1). The first statement is not one of the program: it is the serial line
  receiving the bytes that arrived since the round before.
\<close>

datatype trigger_event = Capture | Exit | NoInput

definition poll_cycle :: "config \<Rightarrow> env \<Rightarrow> cycle_input \<Rightarrow> trigger_event io" where
  "poll_cycle cfg env inp =
     seq_io (serial_receive (serial_arrived inp))
    (bind_io (GPIO_wait_for_edge env pin_camera_btn 400 (camera_edge inp)) (\<lambda>is_pressed.
     bind_io (GPIO_wait_for_edge env pin_exit_btn 100 (exit_edge inp)) (\<lambda>exit_button.
       if exit_button \<noteq> None then ret Exit
       else
         bind_io ser_in_waiting (\<lambda>n.
         bind_io (if n > 0
                  then seq_io (print ''External button pressed'')
                         (seq_io ser_reset_input_buffer (ret (Some 1)))
                  else ret is_pressed) (\<lambda>is_pressed.
         let is_pressed = (if TESTMODE_AUTOPRESS_BUTTON cfg then Some 1 else is_pressed) in
         ret (if is_pressed = None then NoInput else Capture))))))"

text \<open>Lines 255 to 261: the blink counter and the alpha of the second intro overlay.\<close>

definition blink_step :: "idle_state \<Rightarrow> idle_state io" where
  "blink_step st =
     (let i = blink_i st + 1 in
      if i = blink_speed
        then seq_io (set_alpha (overlay_2 st) 255) (ret (st\<lparr>blink_i := i\<rparr>))
      else if i = 2 * blink_speed
        then seq_io (set_alpha (overlay_2 st) 0) (ret (st\<lparr>blink_i := 0\<rparr>))
      else ret (st\<lparr>blink_i := i\<rparr>))"

text \<open>Lines 229 and 230, and again 284 and 285: the two intro overlays.\<close>

definition show_intro :: "config \<Rightarrow> env \<Rightarrow> (overlay_id \<times> overlay_id) io" where
  "show_intro cfg env =
     (let intro_image_1 = REAL_PATH cfg @ ''/assets/intro_1.png'';
          intro_image_2 = REAL_PATH cfg @ ''/assets/intro_2.png'' in
      bind_io (overlay_image env intro_image_1 0 3) (\<lambda>overlay_1.
      bind_io (overlay_image env intro_image_2 0 4) (\<lambda>overlay_2.
      ret (overlay_1, overlay_2))))"

text \<open>Lines 273 and 274: the capture loop of a session.\<close>

definition capture_photos :: "config \<Rightarrow> env \<Rightarrow> string \<Rightarrow> unit io" where
  "capture_photos cfg env filename_prefix =
     for_each (range_up 1 (total_pics cfg + 1))
       (\<lambda>photo_number. taking_photo cfg env photo_number filename_prefix)"

text \<open>Lines 266 to 277: one session, from the accepted press to the end of the playback.
  The \<open>serial_receive\<close> is the serial line receiving the bytes that arrive while the session
  runs; no statement of a session reads the serial line.\<close>

definition run_session :: "config \<Rightarrow> env \<Rightarrow> cycle_input \<Rightarrow> idle_state \<Rightarrow> unit io" where
  "run_session cfg env inp st =
     (let filename_prefix = get_base_filename_for_images (REAL_PATH cfg) (now inp) in
      seq_io (print ''Button pressed! You folks are in for a treat!'')
     (seq_io (remove_overlay (overlay_2 st))
     (seq_io (remove_overlay (overlay_1 st))
     (seq_io (serial_receive (serial_during_session inp))
     (seq_io (prep_for_photo_screen cfg env 1)
     (seq_io (capture_photos cfg env filename_prefix)
             (playback_screen cfg env filename_prefix)))))))"

text \<open>
  The \<^verbatim>\<open>while True\<close> loop, one round for each element of the list of inputs. \<open>Returned\<close>
  is the \<^verbatim>\<open>return\<close> of line 242, \<open>Broke\<close> the \<^verbatim>\<open>break\<close> of line 281; \<open>Polling\<close> says
  that the inputs are used up and the loop is at the top of its next round.
\<close>

datatype loop_result = Returned | Broke | Polling

fun main_loop :: "config \<Rightarrow> env \<Rightarrow> cycle_input list \<Rightarrow> idle_state \<Rightarrow> (loop_result \<times> idle_state) io" where
  "main_loop cfg env [] st = ret (Polling, st)"
| "main_loop cfg env (inp # rest) st =
     bind_io (poll_cycle cfg env inp) (\<lambda>ev.
       case ev of
         Exit \<Rightarrow> ret (Returned, st)
       | NoInput \<Rightarrow> bind_io (blink_step st) (\<lambda>st'. main_loop cfg env rest st')
       | Capture \<Rightarrow>
           seq_io (run_session cfg env inp st)
             (if TESTMODE_AUTOPRESS_BUTTON cfg then ret (Broke, st)
              else
                bind_io (show_intro cfg env) (\<lambda>ovs.
                seq_io (print ''Press the button to take a photo'')
               (seq_io ser_reset_input_buffer
                  (main_loop cfg env rest (st\<lparr>overlay_1 := fst ovs, overlay_2 := snd ovs\<rparr>))))))"

definition main :: "config \<Rightarrow> env \<Rightarrow> cycle_input list \<Rightarrow> loop_result io" where
  "main cfg env inputs =
     seq_io (print ''Welcome to the photo booth!'')
    (seq_io (print ''Press the button to take a photo'')
    (seq_io camera_start_preview
    (bind_io (show_intro cfg env) (\<lambda>ovs.
     bind_io (main_loop cfg env inputs \<lparr>blink_i = 0, overlay_1 = fst ovs, overlay_2 = snd ovs\<rparr>)
       (\<lambda>r. ret (fst r))))))"

section \<open>The program (camera.py, lines 289 to 302)\<close>

definition finally_block :: "unit io" where
  "finally_block = seq_io camera_stop_preview (seq_io camera_close GPIO_cleanup)"

text \<open>
  \<^verbatim>\<open>try: main()\<close> with its two handlers and the \<^verbatim>\<open>finally\<close> block. The result says
  whether the process has ended: it has not while \<open>main\<close> is still polling.
\<close>

datatype process_state = StillPolling | Ended

definition program :: "config \<Rightarrow> env \<Rightarrow> cycle_input list \<Rightarrow> world \<Rightarrow> process_state \<times> world" where
  "program cfg env inputs w =
     (case main cfg env inputs w of
        (Inr Polling, w1) \<Rightarrow> (StillPolling, w1)
      | (Inr _, w1) \<Rightarrow> (Ended, snd (finally_block w1))
      | (Inl KeyboardInterrupt, w1) \<Rightarrow>
          (Ended, snd (seq_io (print ''goodbye'') finally_block w1))
      | (Inl e, w1) \<Rightarrow>
          (Ended, snd (seq_io (print (''unexpected error:  '' @ str_exn e)) finally_block w1)))"

section \<open>Concrete surroundings used in the examples\<close>

definition asset_files :: "string \<Rightarrow> (string \<times> (int \<times> int)) list" where
  "asset_files rp =
     map (\<lambda>n. (rp @ ''/assets/'' @ n, (800, 480)))
       [''intro_1.png'', ''intro_2.png'', ''get_ready.png'', ''white.png'',
        ''processing.png'', ''all_done.png'']"

definition initial_world :: "string \<Rightarrow> world" where
  "initial_world rp =
     \<lparr>overlays = [], next_handle = 0, annotate_text = [], annotate_text_size = 80,
      previewing = False, camera_closed = False, gpio_cleaned = False, dirs = [],
      files = asset_files rp, in_waiting = 0, clock = 0, trace = []\<rparr>"

definition calm_env :: env where
  "calm_env = \<lparr>mkdir_errno = (\<lambda>_. None), capture_fails = (\<lambda>_. False), interrupt_at = None\<rparr>"

definition booth_config :: config where
  "booth_config =
     \<lparr>TESTMODE_AUTOPRESS_BUTTON = False, TESTMODE_FAST = False, total_pics_setting = 4,
      prep_delay_setting = 10, REAL_PATH = ''/pi''\<rparr>"

definition new_year :: datetime where
  "new_year = \<lparr>year = 2017, month = 12, day = 31, hour = 23, minute = 59, second = 59,
               microsecond = 123456\<rparr>"

definition next_second :: datetime where
  "next_second = \<lparr>year = 2018, month = 1, day = 1, hour = 0, minute = 0, second = 0,
                  microsecond = 0\<rparr>"

definition quiet :: cycle_input where
  "quiet = \<lparr>camera_edge = False, exit_edge = False, serial_arrived = 0, now = new_year,
            serial_during_session = 0\<rparr>"

definition press :: cycle_input where
  "press = quiet\<lparr>camera_edge := True\<rparr>"

definition test_config :: config where
  "test_config = booth_config\<lparr>TESTMODE_AUTOPRESS_BUTTON := True, TESTMODE_FAST := True\<rparr>"

definition interrupted_env :: env where
  "interrupted_env = calm_env\<lparr>interrupt_at := Some 0\<rparr>"

definition denied_env :: env where
  "denied_env = calm_env\<lparr>mkdir_errno := (\<lambda>_. Some 13)\<rparr>"

definition both_buttons :: cycle_input where
  "both_buttons = press\<lparr>exit_edge := True, serial_arrived := 3\<rparr>"

definition intro_shown :: idle_state where
  "intro_shown = \<lparr>blink_i = 0, overlay_1 = Renderer 0, overlay_2 = Renderer 1\<rparr>"

definition fast_config :: config where
  "fast_config = booth_config\<lparr>TESTMODE_FAST := True\<rparr>"

definition ready_world :: world where
  "ready_world = snd (show_intro booth_config calm_env (initial_world ''/pi''))"

definition busy_press :: cycle_input where
  "busy_press = press\<lparr>serial_during_session := 5\<rparr>"

definition after_poll :: world where
  "after_poll = snd (poll_cycle fast_config calm_env busy_press ready_world)"

definition after_session :: world where
  "after_session = snd (run_session fast_config calm_env busy_press intro_shown after_poll)"

definition after_intro :: world where
  "after_intro = snd (show_intro fast_config calm_env after_session)"

definition two_config :: config where
  "two_config = booth_config\<lparr>total_pics_setting := 2\<rparr>"

definition two_photos_world :: world where
  "two_photos_world = snd (capture_photos two_config calm_env ''/pi/photos/s'' (initial_world ''/pi''))"

definition test_after_poll :: world where
  "test_after_poll = snd (poll_cycle test_config calm_env quiet ready_world)"

definition test_after_session :: world where
  "test_after_session = snd (run_session test_config calm_env quiet intro_shown test_after_poll)"

section \<open>Notions used in the statements and proofs\<close>

text \<open>The three releases of the \<^verbatim>\<open>finally\<close> block.\<close>

definition teardown_event :: "event \<Rightarrow> bool" where
  "teardown_event e = (e = StopPreview \<or> e = CameraClose \<or> e = GpioCleanup)"

text \<open>\<open>extends w w'\<close>: the trace of \<open>w'\<close> is the trace of \<open>w\<close> followed by events none of
  which is a release. A statement is \<open>quiet_io\<close> when it only ever does that.\<close>

definition extends :: "world \<Rightarrow> world \<Rightarrow> bool" where
  "extends w w' = (\<exists>es. trace w' = trace w @ es \<and> (\<forall>e \<in> set es. \<not> teardown_event e))"

definition quiet_io :: "'a io \<Rightarrow> bool" where
  "quiet_io m = (\<forall>w. extends w (snd (m w)))"

text \<open>The events a world has seen since an earlier one.\<close>

definition events_since :: "world \<Rightarrow> world \<Rightarrow> event list" where
  "events_since w w' = drop (length (trace w)) (trace w')"

text \<open>The files written by captures, in the order of the events.\<close>

fun captured :: "event list \<Rightarrow> string list" where
  "captured [] = []"
| "captured (CaptureStill f # es) = f # captured es"
| "captured (e # es) = captured es"

text \<open>Decimal digits and the number a string of digits stands for.\<close>

definition is_digit :: "char \<Rightarrow> bool" where
  "is_digit c = (48 \<le> (of_char c :: nat) \<and> (of_char c :: nat) \<le> 57)"

definition digit_val :: "char \<Rightarrow> nat" where
  "digit_val c = of_char c - 48"

definition nat_of_digits :: "string \<Rightarrow> nat" where
  "nat_of_digits s = foldl (\<lambda>a c. 10 * a + digit_val c) 0 s"

text \<open>The part of \<^verbatim>\<open>str(d)\<close> before the microseconds, and what the two \<^verbatim>\<open>replace\<close>
  calls do to one character.\<close>

definition stamp :: "datetime \<Rightarrow> string" where
  "stamp d =
     zfill 4 (str_nat (year d)) @ ''-'' @ zfill 2 (str_nat (month d)) @ ''-'' @
     zfill 2 (str_nat (day d)) @ '' '' @ zfill 2 (str_nat (hour d)) @ '':'' @
     zfill 2 (str_nat (minute d)) @ '':'' @ zfill 2 (str_nat (second d))"

definition safe_char :: "char \<Rightarrow> char" where
  "safe_char c =
     (let c1 = (if c = CHR '' '' then CHR ''_'' else c)
      in if c1 = CHR '':'' then CHR ''-'' else c1)"

text \<open>The two waits of one round of the idle loop.\<close>

definition poll_waits :: "event list" where
  "poll_waits = [WaitForEdge pin_camera_btn 400, WaitForEdge pin_exit_btn 100]"


text \<open>An input of a round in which nothing happens.\<close>

definition no_press :: "cycle_input \<Rightarrow> bool" where
  "no_press q = (\<not> camera_edge q \<and> \<not> exit_edge q \<and> serial_arrived q = 0)"

text \<open>\<open>keeps g m\<close>: the statement \<open>m\<close> never changes the observation \<open>g\<close> of the world.\<close>

definition keeps :: "(world \<Rightarrow> 'b) \<Rightarrow> 'a io \<Rightarrow> bool" where
  "keeps g m = (\<forall>w. g (snd (m w)) = g w)"

text \<open>What the capture loop and the serial line are judged by: the unread serial bytes,
  the image files, and the files written by captures so far.\<close>

definition obs :: "world \<Rightarrow> nat \<times> (string \<times> (int \<times> int)) list \<times> string list" where
  "obs w = (in_waiting w, files w, captured (trace w))"

text \<open>The events of one round of the capture loop, for the photo with the given number,
  when the flash overlay gets the renderer handle \<open>h\<close>.\<close>

definition countdown_steps :: "string \<Rightarrow> event list" where
  "countdown_steps s = [Print s, SetAnnotateTextSize 160, SetAnnotateText s, Sleep 1]"

definition photo_steps :: "config \<Rightarrow> string \<Rightarrow> nat \<Rightarrow> int \<Rightarrow> event list" where
  "photo_steps cfg filename_prefix h photo_number =
     [MakeDirs filename_prefix] @
     countdown_steps ''3'' @ countdown_steps ''2'' @ countdown_steps ''1'' @
     [SetAnnotateText [],
      CaptureStill (filename_prefix @ ''/'' @ str_int photo_number @ ''of'' @
                    str_int (total_pics cfg) @ ''.jpg''),
      AddOverlay h (REAL_PATH cfg @ ''/assets/white.png''), SetLayer h 3, Sleep (1 / 10),
      RemoveOverlay h,
      Print (''Photo ('' @ str_int photo_number @ '') saved: '' @ filename_prefix @ ''/'' @
             str_int photo_number @ ''of'' @ str_int (total_pics cfg) @ ''.jpg'')]"

text \<open>
  The overlays a sequence of events leaves on the screen, and whether some overlay is on
  the screen after each event of a sequence.
\<close>

fun live_step :: "nat list \<Rightarrow> event \<Rightarrow> nat list" where
  "live_step live (AddOverlay h s) = h # live"
| "live_step live (RemoveOverlay h) = removeAll h live"
| "live_step live e = live"

fun never_blank :: "nat list \<Rightarrow> event list \<Rightarrow> bool" where
  "never_blank live [] = True"
| "never_blank live (e # es) = (live_step live e \<noteq> [] \<and> never_blank (live_step live e) es)"

text \<open>The events of the playback loop when the overlay on the screen has handle \<open>h\<close> and
  the next overlay gets the handle \<open>h + 1\<close>.\<close>

fun slideshow :: "config \<Rightarrow> string \<Rightarrow> nat \<Rightarrow> int list \<Rightarrow> event list" where
  "slideshow cfg p h [] = []"
| "slideshow cfg p h (n # ns) =
     [AddOverlay (h + 1) (photo_filename cfg p n), SetLayer (h + 1) (3 + total_pics cfg),
      RemoveOverlay h, Sleep 1] @ slideshow cfg p (h + 1) ns"

text \<open>The events of the round of the playback loop for photo \<open>i\<close>, when the "processing"
  overlay has handle \<open>h0\<close>: the overlay of photo \<open>i\<close> gets handle \<open>h0 + i\<close>.\<close>

definition slide_steps :: "config \<Rightarrow> string \<Rightarrow> nat \<Rightarrow> int \<Rightarrow> event list" where
  "slide_steps cfg p h0 i =
     [AddOverlay (h0 + nat i) (p @ ''/'' @ str_int i @ ''of'' @ str_int (total_pics cfg) @ ''.jpg''),
      SetLayer (h0 + nat i) (3 + total_pics cfg),
      RemoveOverlay (h0 + nat i - 1), Sleep 1]"

section \<open>Facts about the string functions\<close>

lemma is_digit_digit_char: "d < 10 \<Longrightarrow> is_digit (digit_char d)"
  by (simp add: is_digit_def digit_char_def)

lemma digit_val_digit_char: "d < 10 \<Longrightarrow> digit_val (digit_char d) = d"
  by (simp add: digit_val_def digit_char_def)

lemma is_digit_zero: "is_digit CHR ''0''"
  by (simp add: is_digit_def)

lemma digit_val_zero: "digit_val CHR ''0'' = 0"
  by (simp add: digit_val_def)

lemma is_digit_not_special:
  "is_digit c \<Longrightarrow> c \<noteq> CHR '' '' \<and> c \<noteq> CHR '':'' \<and> c \<noteq> CHR ''.'' \<and> c \<noteq> CHR ''/'' \<and> c \<noteq> CHR ''-''"
  by (auto simp: is_digit_def)

lemma str_nat_digits: "\<forall>c \<in> set (str_nat n). is_digit c"
proof (induction n rule: str_nat.induct)
  case (1 n)
  show ?case
  proof (cases "n < 10")
    case True
    then show ?thesis by (subst str_nat.simps) (simp add: is_digit_digit_char)
  next
    case False
    then have "\<forall>c \<in> set (str_nat (n div 10)). is_digit c" using "1" by simp
    moreover have "is_digit (digit_char (n mod 10))" by (simp add: is_digit_digit_char)
    ultimately show ?thesis using False by (subst str_nat.simps) simp
  qed
qed

lemma nat_of_digits_snoc: "nat_of_digits (s @ [c]) = 10 * nat_of_digits s + digit_val c"
  by (simp add: nat_of_digits_def)

lemma nat_of_digits_str_nat: "nat_of_digits (str_nat n) = n"
proof (induction n rule: str_nat.induct)
  case (1 n)
  show ?case
  proof (cases "n < 10")
    case True
    then show ?thesis
      by (subst str_nat.simps) (simp add: nat_of_digits_def digit_val_digit_char)
  next
    case False
    then have "nat_of_digits (str_nat (n div 10)) = n div 10" using "1" by simp
    then show ?thesis using False
      by (subst str_nat.simps) (simp add: nat_of_digits_snoc digit_val_digit_char)
  qed
qed

lemma str_nat_inj: "str_nat a = str_nat b \<Longrightarrow> a = b"
  by (metis nat_of_digits_str_nat)

lemma str_nat_nonempty: "str_nat n \<noteq> []"
  by (subst str_nat.simps) simp

lemma foldl_zeros: "foldl (\<lambda>a c. 10 * a + digit_val c) 0 (replicate k CHR ''0'') = 0"
  by (induction k) (simp_all add: digit_val_zero)

lemma nat_of_digits_zfill: "nat_of_digits (zfill w s) = nat_of_digits s"
  by (simp add: nat_of_digits_def zfill_def foldl_zeros)

lemma zfill_str_nat_inj: "zfill w (str_nat a) = zfill w (str_nat b) \<Longrightarrow> a = b"
  by (metis nat_of_digits_zfill nat_of_digits_str_nat)

lemma zfill_digits: "\<forall>c \<in> set s. is_digit c \<Longrightarrow> \<forall>c \<in> set (zfill w s). is_digit c"
  by (auto simp: zfill_def is_digit_zero)

lemma length_str_nat: "n < 10 ^ k \<Longrightarrow> length (str_nat n) \<le> max 1 k"
proof (induction k arbitrary: n)
  case 0
  then show ?case by (subst str_nat.simps) simp
next
  case (Suc k)
  show ?case
  proof (cases "n < 10")
    case True
    then show ?thesis by (subst str_nat.simps) simp
  next
    case False
    then have "n div 10 < 10 ^ k" using Suc.prems by simp
    then have "length (str_nat (n div 10)) \<le> max 1 k" by (rule Suc.IH)
    moreover have "1 \<le> k" using False Suc.prems by (cases k) simp_all
    ultimately show ?thesis using False by (subst str_nat.simps) simp
  qed
qed

lemma length_zfill: "length s \<le> w \<Longrightarrow> length (zfill w s) = w"
  by (simp add: zfill_def)

lemma length_field2: "n < 100 \<Longrightarrow> length (zfill 2 (str_nat n)) = 2"
  using length_str_nat [of n 2] by (simp add: length_zfill)

lemma length_field4: "n < 10000 \<Longrightarrow> length (zfill 4 (str_nat n)) = 4"
  using length_str_nat [of n 4] by (simp add: length_zfill)

lemma field_digits: "\<forall>c \<in> set (zfill w (str_nat n)). is_digit c"
  by (rule zfill_digits) (rule str_nat_digits)

section \<open>Evaluation on concrete inputs\<close>

lemma digit_char_eval:
  "digit_char 0 = CHR ''0''" "digit_char 1 = CHR ''1''" "digit_char 2 = CHR ''2''"
  "digit_char 3 = CHR ''3''" "digit_char 4 = CHR ''4''" "digit_char 5 = CHR ''5''"
  "digit_char 6 = CHR ''6''" "digit_char 7 = CHR ''7''" "digit_char 8 = CHR ''8''"
  "digit_char 9 = CHR ''9''" "digit_char (Suc 0) = CHR ''1''"
  by code_simp+

lemmas py_eval = str_nat.simps digit_char_eval zfill_def split_first_def replace_char_def
  str_int_def range_up_def range_down_def upto.simps

lemmas io_eval = ret_def raise_def bind_io_def seq_io_def emit_def blocking_def print_def sleep_def
  Image_open_def camera_add_overlay_def set_layer_def camera_remove_overlay_def
  set_annotate_text_size_def set_annotate_text_def os_makedirs_def camera_capture_def
  camera_start_preview_def camera_stop_preview_def camera_close_def GPIO_cleanup_def
  GPIO_wait_for_edge_def serial_receive_def ser_in_waiting_def ser_reset_input_buffer_def
  print_overlay_def remove_overlay_def overlay_image_def prep_for_photo_screen_def
  ensure_dir_def photo_filename_def taking_photo_def playback_screen_def poll_cycle_def
  blink_step_def show_intro_def capture_photos_def run_session_def main_def finally_block_def
  program_def total_pics_def prep_delay_def get_base_filename_for_images_def str_datetime_def
  pin_camera_btn_def pin_exit_btn_def photo_w_def photo_h_def EEXIST_def ENOENT_def blink_speed_def
  str_exn_def Let_def

lemmas ex_eval = asset_files_def initial_world_def calm_env_def booth_config_def new_year_def
  next_second_def quiet_def press_def test_config_def interrupted_env_def denied_env_def
  both_buttons_def intro_shown_def fast_config_def ready_world_def busy_press_def
  after_poll_def after_session_def after_intro_def
  two_config_def two_photos_world_def
  test_after_poll_def test_after_session_def

section \<open>The session namer\<close>

lemma replace_char_removes: "b \<noteq> a \<Longrightarrow> a \<notin> set (replace_char a b s)"
  by (auto simp: replace_char_def)

lemma replace_char_keeps_out: "c \<notin> set s \<Longrightarrow> b \<noteq> c \<Longrightarrow> c \<notin> set (replace_char a b s)"
  by (auto simp: replace_char_def)

lemma field_no_dot: "CHR ''.'' \<notin> set (zfill w (str_nat n))"
  using field_digits [of w n] is_digit_not_special by blast

lemma stamp_no_dot: "\<forall>c \<in> set (stamp d). c \<noteq> CHR ''.''"
  using field_no_dot by (auto simp: stamp_def)

lemma split_first_str_datetime: "split_first CHR ''.'' (str_datetime d) = stamp d"
proof -
  have "str_datetime d =
          stamp d @ (if microsecond d = 0 then [] else ''.'' @ zfill 6 (str_nat (microsecond d)))"
    by (simp add: str_datetime_def stamp_def)
  then show ?thesis using stamp_no_dot [of d]
    by (simp add: split_first_def takeWhile_append2)
qed

lemma base_filename_eq:
  "get_base_filename_for_images rp d = map safe_char (rp @ ''/photos/'') @ map safe_char (stamp d)"
  by (simp add: get_base_filename_for_images_def split_first_str_datetime replace_char_def
      safe_char_def Let_def)

lemma safe_char_field: "map safe_char (zfill w (str_nat n)) = zfill w (str_nat n)"
proof (rule map_idI)
  fix c assume "c \<in> set (zfill w (str_nat n))"
  then have "is_digit c" using field_digits by blast
  then show "safe_char c = c" using is_digit_not_special [of c] by (simp add: safe_char_def)
qed

lemma safe_stamp:
  "map safe_char (stamp d) =
     zfill 4 (str_nat (year d)) @ ''-'' @ zfill 2 (str_nat (month d)) @ ''-'' @
     zfill 2 (str_nat (day d)) @ ''_'' @ zfill 2 (str_nat (hour d)) @ ''-'' @
     zfill 2 (str_nat (minute d)) @ ''-'' @ zfill 2 (str_nat (second d))"
  by (simp add: stamp_def safe_char_field) (simp add: safe_char_def)

lemma safe_stamp_inj:
  assumes "valid_datetime a" "valid_datetime b"
    and "map safe_char (stamp a) = map safe_char (stamp b)"
  shows "to_second a = to_second b"
proof -
  have la: "length (zfill 4 (str_nat (year a))) = 4" "length (zfill 2 (str_nat (month a))) = 2"
    "length (zfill 2 (str_nat (day a))) = 2" "length (zfill 2 (str_nat (hour a))) = 2"
    "length (zfill 2 (str_nat (minute a))) = 2" "length (zfill 2 (str_nat (second a))) = 2"
    using assms(1) by (simp_all add: valid_datetime_def length_field2 length_field4)
  have lb: "length (zfill 4 (str_nat (year b))) = 4" "length (zfill 2 (str_nat (month b))) = 2"
    "length (zfill 2 (str_nat (day b))) = 2" "length (zfill 2 (str_nat (hour b))) = 2"
    "length (zfill 2 (str_nat (minute b))) = 2" "length (zfill 2 (str_nat (second b))) = 2"
    using assms(2) by (simp_all add: valid_datetime_def length_field2 length_field4)
  have "zfill 4 (str_nat (year a)) = zfill 4 (str_nat (year b)) \<and>
        zfill 2 (str_nat (month a)) = zfill 2 (str_nat (month b)) \<and>
        zfill 2 (str_nat (day a)) = zfill 2 (str_nat (day b)) \<and>
        zfill 2 (str_nat (hour a)) = zfill 2 (str_nat (hour b)) \<and>
        zfill 2 (str_nat (minute a)) = zfill 2 (str_nat (minute b)) \<and>
        zfill 2 (str_nat (second a)) = zfill 2 (str_nat (second b))"
    using assms(3) la lb unfolding safe_stamp by (simp add: append_eq_append_conv)
  then show ?thesis by (auto simp: to_second_def dest: zfill_str_nat_inj)
qed

text \<open>
  Claim C8. The base name of a session contains no space and no colon, and two valid
  clock readings that differ in a field down to the second give two different base
  names (for the same \<^verbatim>\<open>REAL_PATH\<close>).
\<close>

theorem base_filename_safe_and_unique:
  assumes "valid_datetime a" and "valid_datetime b"
  shows "CHR '' '' \<notin> set (get_base_filename_for_images rp a) \<and>
         CHR '':'' \<notin> set (get_base_filename_for_images rp a) \<and>
         (to_second a \<noteq> to_second b \<longrightarrow>
            get_base_filename_for_images rp a \<noteq> get_base_filename_for_images rp b)"
proof -
  have "CHR '' '' \<notin> set (get_base_filename_for_images rp a)"
    by (simp add: get_base_filename_for_images_def Let_def replace_char_removes
        replace_char_keeps_out)
  moreover have "CHR '':'' \<notin> set (get_base_filename_for_images rp a)"
    by (simp add: get_base_filename_for_images_def Let_def replace_char_removes)
  moreover have "to_second a = to_second b"
    if "get_base_filename_for_images rp a = get_base_filename_for_images rp b"
  proof -
    from that have "map safe_char (stamp a) = map safe_char (stamp b)"
      by (simp only: base_filename_eq same_append_eq)
    with assms show ?thesis by (rule safe_stamp_inj)
  qed
  ultimately show ?thesis by blast
qed

theorem base_filename_safe_and_unique_witness:
  "valid_datetime new_year \<and> valid_datetime next_second \<and>
   to_second new_year \<noteq> to_second next_second \<and>
   get_base_filename_for_images ''/home/pi/photo booth'' new_year =
     ''/home/pi/photo_booth/photos/2017-12-31_23-59-59'' \<and>
   CHR '' '' \<notin> set (get_base_filename_for_images ''/home/pi/photo booth'' new_year) \<and>
   CHR '':'' \<notin> set (get_base_filename_for_images ''/home/pi/photo booth'' new_year) \<and>
   get_base_filename_for_images ''/home/pi/photo booth'' new_year \<noteq>
     get_base_filename_for_images ''/home/pi/photo booth'' next_second"
proof -
  have v: "valid_datetime new_year" "valid_datetime next_second"
    by (simp_all add: valid_datetime_def new_year_def next_second_def)
  have n: "to_second new_year \<noteq> to_second next_second"
    by (simp add: to_second_def new_year_def next_second_def)
  have e: "get_base_filename_for_images ''/home/pi/photo booth'' new_year =
             ''/home/pi/photo_booth/photos/2017-12-31_23-59-59''"
    by (simp add: get_base_filename_for_images_def str_datetime_def new_year_def py_eval)
  note t = base_filename_safe_and_unique [OF v, of "''/home/pi/photo booth''"]
  have c1: "CHR '' '' \<notin> set (get_base_filename_for_images ''/home/pi/photo booth'' new_year)"
    using t by (rule conjunct1)
  have c2: "CHR '':'' \<notin> set (get_base_filename_for_images ''/home/pi/photo booth'' new_year)"
    using t by (elim conjE)
  have c3: "get_base_filename_for_images ''/home/pi/photo booth'' new_year \<noteq>
            get_base_filename_for_images ''/home/pi/photo booth'' next_second"
    using t n by (elim conjE impE)
  from v n e c1 c2 c3 show ?thesis by (intro conjI)
qed

section \<open>One round of the idle loop\<close>

lemma poll_cycle_exit:
  assumes "exit_edge inp" and "interrupt_at env \<noteq> Some (clock w)"
    and "interrupt_at env \<noteq> Some (clock w + 1)"
  shows "poll_cycle cfg env inp w =
           (Inr Exit,
            w\<lparr>in_waiting := in_waiting w + serial_arrived inp, clock := clock w + 2,
              trace := trace w @ [WaitForEdge pin_camera_btn 400, WaitForEdge pin_exit_btn 100]\<rparr>)"
  using assms
  by (simp add: poll_cycle_def seq_io_def bind_io_def serial_receive_def GPIO_wait_for_edge_def
      blocking_def emit_def ret_def)

lemma poll_cycle_quiet:
  assumes "\<not> camera_edge inp" and "\<not> exit_edge inp" and "serial_arrived inp = 0"
    and "in_waiting w = 0" and "\<not> TESTMODE_AUTOPRESS_BUTTON cfg"
    and "interrupt_at env \<noteq> Some (clock w)" and "interrupt_at env \<noteq> Some (clock w + 1)"
  shows "poll_cycle cfg env inp w =
           (Inr NoInput,
            w\<lparr>clock := clock w + 2,
              trace := trace w @ [WaitForEdge pin_camera_btn 400, WaitForEdge pin_exit_btn 100]\<rparr>)"
  using assms
  by (simp add: poll_cycle_def seq_io_def bind_io_def serial_receive_def GPIO_wait_for_edge_def
      blocking_def emit_def ret_def ser_in_waiting_def)

text \<open>
  Claim C5. In a round of the idle loop in which the exit button had its falling edge (and
  no Ctrl-C interrupts the two waits), the round yields \<open>Exit\<close> and the loop returns at
  once, whatever the camera button, the serial line and the auto-press flag say: the
  only events of the round are the two waits, so no session starts and the serial
  buffer is not reset.
\<close>

theorem exit_takes_priority:
  assumes "exit_edge inp" and "interrupt_at env \<noteq> Some (clock w)"
    and "interrupt_at env \<noteq> Some (clock w + 1)"
  shows "poll_cycle cfg env inp w =
           (Inr Exit,
            w\<lparr>in_waiting := in_waiting w + serial_arrived inp, clock := clock w + 2,
              trace := trace w @ [WaitForEdge pin_camera_btn 400, WaitForEdge pin_exit_btn 100]\<rparr>) \<and>
         main_loop cfg env (inp # rest) st w =
           (Inr (Returned, st),
            w\<lparr>in_waiting := in_waiting w + serial_arrived inp, clock := clock w + 2,
              trace := trace w @ [WaitForEdge pin_camera_btn 400, WaitForEdge pin_exit_btn 100]\<rparr>)"
  using poll_cycle_exit [OF assms, of cfg] by (simp add: bind_io_def ret_def)

theorem exit_takes_priority_witness:
  "exit_edge both_buttons \<and> camera_edge both_buttons \<and> 0 < serial_arrived both_buttons \<and>
   TESTMODE_AUTOPRESS_BUTTON test_config \<and>
   interrupt_at calm_env \<noteq> Some (clock (initial_world ''/pi'')) \<and>
   interrupt_at calm_env \<noteq> Some (clock (initial_world ''/pi'') + 1) \<and>
   fst (poll_cycle test_config calm_env both_buttons (initial_world ''/pi'')) = Inr Exit \<and>
   fst (main_loop test_config calm_env [both_buttons, press] intro_shown (initial_world ''/pi'')) =
     Inr (Returned, intro_shown) \<and>
   trace (snd (main_loop test_config calm_env [both_buttons, press] intro_shown
                 (initial_world ''/pi''))) =
     [WaitForEdge 21 400, WaitForEdge 13 100]"
proof -
  have a: "exit_edge both_buttons" by (simp add: both_buttons_def)
  have b: "interrupt_at calm_env \<noteq> Some (clock (initial_world ''/pi''))"
    by (simp add: calm_env_def)
  have c: "interrupt_at calm_env \<noteq> Some (clock (initial_world ''/pi'') + 1)"
    by (simp add: calm_env_def)
  have d: "camera_edge both_buttons \<and> 0 < serial_arrived both_buttons \<and>
           TESTMODE_AUTOPRESS_BUTTON test_config"
    by (simp add: both_buttons_def press_def quiet_def test_config_def booth_config_def)
  show ?thesis
    using a b c d exit_takes_priority [OF a b c, of test_config "[press]" intro_shown]
    by (simp add: initial_world_def pin_camera_btn_def pin_exit_btn_def)
qed

section \<open>No statement of the main function releases a device\<close>

named_theorems quiet_intros

lemma extends_refl: "extends w w"
  by (simp add: extends_def)

lemma extends_trans: "extends a b \<Longrightarrow> extends b c \<Longrightarrow> extends a c"
  by (auto simp: extends_def)

lemma extends_same: "trace w' = trace w \<Longrightarrow> extends w w'"
  by (simp add: extends_def)

lemma extends_one: "trace w' = trace w @ [e] \<Longrightarrow> \<not> teardown_event e \<Longrightarrow> extends w w'"
  by (simp add: extends_def)

lemma quiet_ret [quiet_intros]: "quiet_io (ret a)"
  by (simp add: quiet_io_def ret_def extends_refl)

lemma quiet_raise [quiet_intros]: "quiet_io (raise e)"
  by (simp add: quiet_io_def raise_def extends_refl)

lemma quiet_bind [quiet_intros]:
  assumes "quiet_io m" and "\<And>a. quiet_io (f a)"
  shows "quiet_io (bind_io m f)"
proof -
  have "extends w (snd (bind_io m f w))" for w
  proof (cases "m w")
    case (Pair r w1)
    have a: "extends w w1" using assms(1) Pair by (metis quiet_io_def snd_conv)
    show ?thesis
    proof (cases r)
      case (Inl e)
      then show ?thesis using Pair a by (simp add: bind_io_def)
    next
      case (Inr v)
      have "extends w1 (snd (f v w1))" using assms(2) by (simp add: quiet_io_def)
      then show ?thesis using Pair Inr a by (auto simp: bind_io_def intro: extends_trans)
    qed
  qed
  then show ?thesis by (simp add: quiet_io_def)
qed

lemma quiet_seq [quiet_intros]: "quiet_io m \<Longrightarrow> quiet_io k \<Longrightarrow> quiet_io (seq_io m k)"
  by (simp add: seq_io_def quiet_bind)

lemma quiet_if [quiet_intros]: "quiet_io a \<Longrightarrow> quiet_io b \<Longrightarrow> quiet_io (if c then a else b)"
  by simp

lemma quiet_emit: "\<not> teardown_event e \<Longrightarrow> quiet_io (emit e)"
  by (simp add: quiet_io_def emit_def extends_one)

lemma quiet_print [quiet_intros]: "quiet_io (print s)"
  by (simp add: print_def quiet_emit teardown_event_def)

lemma quiet_blocking [quiet_intros]: "quiet_io (blocking env)"
  by (simp add: quiet_io_def blocking_def extends_same)

lemma quiet_sleep [quiet_intros]: "quiet_io (sleep env d)"
  by (simp add: sleep_def quiet_seq quiet_blocking quiet_emit teardown_event_def)

lemma quiet_Image_open [quiet_intros]: "quiet_io (Image_open p)"
  by (simp add: quiet_io_def Image_open_def extends_refl split: option.splits)

lemma quiet_camera_add_overlay [quiet_intros]: "quiet_io (camera_add_overlay s p z)"
  by (simp add: quiet_io_def camera_add_overlay_def Let_def extends_one teardown_event_def)

lemma quiet_set_layer [quiet_intros]: "quiet_io (set_layer h l)"
  by (simp add: quiet_io_def set_layer_def extends_one teardown_event_def)

lemma quiet_camera_remove_overlay [quiet_intros]: "quiet_io (camera_remove_overlay h)"
  by (simp add: quiet_io_def camera_remove_overlay_def extends_one extends_refl teardown_event_def)

lemma quiet_set_alpha [quiet_intros]: "quiet_io (set_alpha x a)"
  by (cases x) (simp_all add: quiet_io_def raise_def extends_one extends_refl teardown_event_def)

lemma quiet_set_annotate_text_size [quiet_intros]: "quiet_io (set_annotate_text_size n)"
  by (simp add: quiet_io_def set_annotate_text_size_def extends_one teardown_event_def)

lemma quiet_set_annotate_text [quiet_intros]: "quiet_io (set_annotate_text s)"
  by (simp add: quiet_io_def set_annotate_text_def extends_one teardown_event_def)

lemma quiet_os_makedirs [quiet_intros]: "quiet_io (os_makedirs env p)"
  by (simp add: quiet_io_def os_makedirs_def Let_def extends_one teardown_event_def
      split: option.splits)

lemma quiet_ensure_dir [quiet_intros]: "quiet_io (ensure_dir env p)"
proof -
  have "snd (ensure_dir env p w) = snd (os_makedirs env p w)" for w
    by (simp add: ensure_dir_def split: prod.splits sum.splits exn.splits)
  then show ?thesis using quiet_os_makedirs [of env p] by (simp add: quiet_io_def)
qed

lemma quiet_camera_capture [quiet_intros]: "quiet_io (camera_capture env f)"
proof -
  have "quiet_io (\<lambda>w. if capture_fails env f then (Inl PiCameraError, w)
            else (Inr (),
                  w\<lparr>files := (f, (photo_w, photo_h)) # files w,
                    trace := trace w @ [CaptureStill f]\<rparr>))"
    by (simp add: quiet_io_def extends_one extends_refl teardown_event_def)
  then show ?thesis by (simp add: camera_capture_def quiet_seq quiet_blocking)
qed

lemma quiet_camera_start_preview [quiet_intros]: "quiet_io camera_start_preview"
  by (simp add: quiet_io_def camera_start_preview_def extends_one teardown_event_def)

lemma quiet_GPIO_wait_for_edge [quiet_intros]: "quiet_io (GPIO_wait_for_edge env p t e)"
  by (simp add: GPIO_wait_for_edge_def quiet_seq quiet_blocking quiet_emit quiet_ret
      teardown_event_def)

lemma quiet_serial_receive [quiet_intros]: "quiet_io (serial_receive n)"
  by (simp add: quiet_io_def serial_receive_def extends_same)

lemma quiet_ser_in_waiting [quiet_intros]: "quiet_io ser_in_waiting"
  by (simp add: quiet_io_def ser_in_waiting_def extends_refl)

lemma quiet_ser_reset_input_buffer [quiet_intros]: "quiet_io ser_reset_input_buffer"
  by (simp add: quiet_io_def ser_reset_input_buffer_def extends_one teardown_event_def)

lemma quiet_print_overlay [quiet_intros]: "quiet_io (print_overlay s n)"
  unfolding print_overlay_def by (intro quiet_intros)

lemma quiet_remove_overlay [quiet_intros]: "quiet_io (remove_overlay x)"
  by (cases x) (simp_all add: remove_overlay_def quiet_ret quiet_camera_remove_overlay)

lemma quiet_overlay_image [quiet_intros]: "quiet_io (overlay_image env p d l)"
  unfolding overlay_image_def Let_def by (intro quiet_intros)

lemma quiet_for_each [quiet_intros]: "(\<And>x. quiet_io (body x)) \<Longrightarrow> quiet_io (for_each xs body)"
  by (induction xs) (simp_all add: quiet_ret quiet_seq)

lemma quiet_prep_for_photo_screen [quiet_intros]: "quiet_io (prep_for_photo_screen cfg env n)"
  unfolding prep_for_photo_screen_def Let_def by (intro quiet_intros)

lemma quiet_taking_photo [quiet_intros]: "quiet_io (taking_photo cfg env n p)"
  unfolding taking_photo_def Let_def by (intro quiet_intros)

lemma quiet_playback_loop [quiet_intros]: "quiet_io (playback_loop cfg env p ks prev)"
proof (induction ks arbitrary: prev)
  case Nil
  show ?case by (simp add: quiet_ret)
next
  case (Cons k ks)
  show ?case unfolding playback_loop.simps Let_def by (intro quiet_intros Cons.IH)
qed

lemma quiet_playback_screen [quiet_intros]: "quiet_io (playback_screen cfg env p)"
  unfolding playback_screen_def Let_def by (intro quiet_intros)

lemma quiet_poll_cycle [quiet_intros]: "quiet_io (poll_cycle cfg env inp)"
  unfolding poll_cycle_def Let_def by (intro quiet_intros)

lemma quiet_blink_step [quiet_intros]: "quiet_io (blink_step st)"
  unfolding blink_step_def Let_def by (intro quiet_intros)

lemma quiet_show_intro [quiet_intros]: "quiet_io (show_intro cfg env)"
  unfolding show_intro_def Let_def by (intro quiet_intros)

lemma quiet_capture_photos [quiet_intros]: "quiet_io (capture_photos cfg env p)"
  unfolding capture_photos_def by (intro quiet_intros)

lemma quiet_run_session [quiet_intros]: "quiet_io (run_session cfg env inp st)"
  unfolding run_session_def Let_def by (intro quiet_intros)

lemma quiet_trigger_case:
  "quiet_io a \<Longrightarrow> quiet_io b \<Longrightarrow> quiet_io c \<Longrightarrow>
   quiet_io (case ev of Capture \<Rightarrow> a | Exit \<Rightarrow> b | NoInput \<Rightarrow> c)"
  by (cases ev) simp_all

lemma quiet_main_loop [quiet_intros]: "quiet_io (main_loop cfg env inputs st)"
proof (induction inputs arbitrary: st)
  case Nil
  show ?case by (simp add: quiet_ret)
next
  case (Cons inp rest)
  show ?case unfolding main_loop.simps
    by (intro quiet_intros quiet_trigger_case Cons.IH)
qed

lemma quiet_main [quiet_intros]: "quiet_io (main cfg env inputs)"
  unfolding main_def by (intro quiet_intros)

section \<open>The end of the process\<close>

lemma finally_block_world:
  "finally_block w =
     (Inr (), w\<lparr>previewing := False, camera_closed := True, gpio_cleaned := True,
               trace := trace w @ [StopPreview, CameraClose, GpioCleanup]\<rparr>)"
  by (simp add: finally_block_def seq_io_def bind_io_def camera_stop_preview_def camera_close_def
      GPIO_cleanup_def)

lemma print_finally_world:
  "seq_io (print s) finally_block w =
     (Inr (), w\<lparr>previewing := False, camera_closed := True, gpio_cleaned := True,
               trace := trace w @ [Print s, StopPreview, CameraClose, GpioCleanup]\<rparr>)"
  by (simp add: finally_block_world seq_io_def bind_io_def print_def emit_def)

lemma program_ended:
  assumes "fst (program cfg env inputs w) = Ended"
  shows "\<exists>es. (\<forall>e \<in> set es. \<not> teardown_event e) \<and>
           trace (snd (program cfg env inputs w)) =
             trace w @ es @ [StopPreview, CameraClose, GpioCleanup] \<and>
           \<not> previewing (snd (program cfg env inputs w)) \<and>
           camera_closed (snd (program cfg env inputs w)) \<and>
           gpio_cleaned (snd (program cfg env inputs w))"
proof -
  obtain r w1 where m: "main cfg env inputs w = (r, w1)" by (cases "main cfg env inputs w")
  have "extends w w1" using quiet_main [of cfg env inputs] m by (metis quiet_io_def snd_conv)
  then obtain es0 where es0: "trace w1 = trace w @ es0" "\<forall>e \<in> set es0. \<not> teardown_event e"
    by (auto simp: extends_def)
  show ?thesis
  proof (cases r)
    case (Inl e)
    show ?thesis
    proof (cases "e = KeyboardInterrupt")
      case True
      have "\<forall>e \<in> set (es0 @ [Print ''goodbye'']). \<not> teardown_event e"
        using es0(2) by (simp add: teardown_event_def)
      moreover have "trace (snd (program cfg env inputs w)) =
          trace w @ (es0 @ [Print ''goodbye'']) @ [StopPreview, CameraClose, GpioCleanup]"
        using m Inl True es0(1) by (simp add: program_def print_finally_world)
      moreover have "\<not> previewing (snd (program cfg env inputs w)) \<and>
           camera_closed (snd (program cfg env inputs w)) \<and>
           gpio_cleaned (snd (program cfg env inputs w))"
        using m Inl True by (simp add: program_def print_finally_world)
      ultimately show ?thesis by blast
    next
      case False
      have "\<forall>x \<in> set (es0 @ [Print (''unexpected error:  '' @ str_exn e)]). \<not> teardown_event x"
        using es0(2) by (simp add: teardown_event_def)
      moreover have "trace (snd (program cfg env inputs w)) =
          trace w @ (es0 @ [Print (''unexpected error:  '' @ str_exn e)]) @
            [StopPreview, CameraClose, GpioCleanup]"
        using m Inl False es0(1) by (cases e) (simp_all add: program_def print_finally_world)
      moreover have "\<not> previewing (snd (program cfg env inputs w)) \<and>
           camera_closed (snd (program cfg env inputs w)) \<and>
           gpio_cleaned (snd (program cfg env inputs w))"
        using m Inl False by (cases e) (simp_all add: program_def print_finally_world)
      ultimately show ?thesis by blast
    qed
  next
    case (Inr v)
    then have v: "v \<noteq> Polling" using assms m by (auto simp: program_def)
    have "trace (snd (program cfg env inputs w)) =
          trace w @ es0 @ [StopPreview, CameraClose, GpioCleanup]"
      using m Inr v es0(1) by (cases v) (simp_all add: program_def finally_block_world)
    moreover have "\<not> previewing (snd (program cfg env inputs w)) \<and>
           camera_closed (snd (program cfg env inputs w)) \<and>
           gpio_cleaned (snd (program cfg env inputs w))"
      using m Inr v by (cases v) (simp_all add: program_def finally_block_world)
    ultimately show ?thesis using es0(2) by blast
  qed
qed

lemma count_list_absent: "x \<notin> set xs \<Longrightarrow> count_list xs x = 0"
  by (induction xs) auto

lemma run_test_mode: "fst (program test_config calm_env [quiet] (initial_world ''/pi'')) = Ended"
  by (simp add: io_eval py_eval ex_eval)

lemma run_interrupted: "fst (program booth_config interrupted_env [quiet] (initial_world ''/pi'')) = Ended"
  by (simp add: io_eval py_eval ex_eval)

lemma run_denied: "fst (program booth_config denied_env [press] (initial_world ''/pi'')) = Ended"
  by (simp add: io_eval py_eval ex_eval)

text \<open>
  Claim C9. Whenever the process ends (the main function returned through the exit button
  or the \<^verbatim>\<open>break\<close> of the auto-press mode, a \<^verbatim>\<open>KeyboardInterrupt\<close> was raised, or any
  other exception was raised), the events since the start contain each of the three
  releases (preview stopped, camera closed, GPIO cleaned up) exactly once, they are the
  last three events, and the devices are released in the final state.
\<close>

theorem teardown_exactly_once:
  assumes "fst (program cfg env inputs w) = Ended"
  shows "trace (snd (program cfg env inputs w)) =
           trace w @ events_since w (snd (program cfg env inputs w)) \<and>
         count_list (events_since w (snd (program cfg env inputs w))) StopPreview = 1 \<and>
         count_list (events_since w (snd (program cfg env inputs w))) CameraClose = 1 \<and>
         count_list (events_since w (snd (program cfg env inputs w))) GpioCleanup = 1 \<and>
         drop (length (events_since w (snd (program cfg env inputs w))) - 3)
              (events_since w (snd (program cfg env inputs w))) =
           [StopPreview, CameraClose, GpioCleanup] \<and>
         \<not> previewing (snd (program cfg env inputs w)) \<and>
         camera_closed (snd (program cfg env inputs w)) \<and>
         gpio_cleaned (snd (program cfg env inputs w))"
proof -
  obtain es where es: "\<forall>e \<in> set es. \<not> teardown_event e"
      "trace (snd (program cfg env inputs w)) = trace w @ es @ [StopPreview, CameraClose, GpioCleanup]"
    and fl: "\<not> previewing (snd (program cfg env inputs w)) \<and>
             camera_closed (snd (program cfg env inputs w)) \<and>
             gpio_cleaned (snd (program cfg env inputs w))"
    using program_ended [OF assms] by blast
  have ev: "events_since w (snd (program cfg env inputs w)) = es @ [StopPreview, CameraClose, GpioCleanup]"
    by (simp add: events_since_def es(2))
  have "StopPreview \<notin> set es" "CameraClose \<notin> set es" "GpioCleanup \<notin> set es"
    using es(1) by (auto simp: teardown_event_def)
  then have "count_list es StopPreview = 0" "count_list es CameraClose = 0"
    "count_list es GpioCleanup = 0"
    by (simp_all add: count_list_absent)
  then show ?thesis using fl es(2) by (simp add: ev)
qed

theorem teardown_exactly_once_witness:
  "fst (program test_config calm_env [quiet] (initial_world ''/pi'')) = Ended \<and>
   count_list (events_since (initial_world ''/pi'')
      (snd (program test_config calm_env [quiet] (initial_world ''/pi'')))) StopPreview = 1 \<and>
   count_list (events_since (initial_world ''/pi'')
      (snd (program test_config calm_env [quiet] (initial_world ''/pi'')))) CameraClose = 1 \<and>
   count_list (events_since (initial_world ''/pi'')
      (snd (program test_config calm_env [quiet] (initial_world ''/pi'')))) GpioCleanup = 1 \<and>
   fst (program booth_config interrupted_env [quiet] (initial_world ''/pi'')) = Ended \<and>
   count_list (events_since (initial_world ''/pi'')
      (snd (program booth_config interrupted_env [quiet] (initial_world ''/pi'')))) StopPreview = 1 \<and>
   count_list (events_since (initial_world ''/pi'')
      (snd (program booth_config interrupted_env [quiet] (initial_world ''/pi'')))) CameraClose = 1 \<and>
   count_list (events_since (initial_world ''/pi'')
      (snd (program booth_config interrupted_env [quiet] (initial_world ''/pi'')))) GpioCleanup = 1 \<and>
   fst (program booth_config denied_env [press] (initial_world ''/pi'')) = Ended \<and>
   count_list (events_since (initial_world ''/pi'')
      (snd (program booth_config denied_env [press] (initial_world ''/pi'')))) StopPreview = 1 \<and>
   count_list (events_since (initial_world ''/pi'')
      (snd (program booth_config denied_env [press] (initial_world ''/pi'')))) CameraClose = 1 \<and>
   count_list (events_since (initial_world ''/pi'')
      (snd (program booth_config denied_env [press] (initial_world ''/pi'')))) GpioCleanup = 1"
  using run_test_mode run_interrupted run_denied
    teardown_exactly_once [OF run_test_mode] teardown_exactly_once [OF run_interrupted]
    teardown_exactly_once [OF run_denied]
  by simp

section \<open>Directory creation\<close>

lemma ensure_dir_exists:
  "dirname \<in> set (dirs w) \<Longrightarrow>
   ensure_dir env dirname w = (Inr (), w\<lparr>trace := trace w @ [MakeDirs dirname]\<rparr>)"
  by (simp add: ensure_dir_def os_makedirs_def Let_def)

lemma ensure_dir_fails:
  "dirname \<notin> set (dirs w) \<Longrightarrow> mkdir_errno env dirname = Some e \<Longrightarrow> e \<noteq> EEXIST \<Longrightarrow>
   ensure_dir env dirname w = (Inl (OSError e), w\<lparr>trace := trace w @ [MakeDirs dirname]\<rparr>)"
  by (simp add: ensure_dir_def os_makedirs_def Let_def)

lemma ensure_dir_cases:
  "ensure_dir env d w =
     (if d \<in> set (dirs w) then (Inr (), w\<lparr>trace := trace w @ [MakeDirs d]\<rparr>)
      else case mkdir_errno env d of
             None \<Rightarrow> (Inr (), w\<lparr>dirs := d # dirs w, trace := trace w @ [MakeDirs d]\<rparr>)
           | Some e \<Rightarrow> if e \<noteq> EEXIST
                       then (Inl (OSError e), w\<lparr>trace := trace w @ [MakeDirs d]\<rparr>)
                       else (Inr (), w\<lparr>trace := trace w @ [MakeDirs d]\<rparr>))"
  by (simp add: ensure_dir_def os_makedirs_def Let_def split: option.splits)

lemma ensure_dir_twice:
  assumes "fst (ensure_dir env d w) = Inr ()"
  shows "fst (ensure_dir env d (snd (ensure_dir env d w))) = Inr () \<and>
         dirs (snd (ensure_dir env d (snd (ensure_dir env d w)))) = dirs (snd (ensure_dir env d w)) \<and>
         files (snd (ensure_dir env d (snd (ensure_dir env d w)))) = files w"
  using assms by (auto simp: ensure_dir_cases split: option.splits if_splits)

lemma taking_photo_mkdir_fails:
  assumes "ensure_dir env d w = (Inl e, w')"
  shows "taking_photo cfg env n d w = (Inl e, w')"
  using assms by (simp add: taking_photo_def Let_def seq_io_def bind_io_def)

lemma capture_photos_mkdir_fails:
  assumes "ensure_dir env d w = (Inl e, w')" and "1 \<le> total_pics cfg"
  shows "capture_photos cfg env d w = (Inl e, w')"
proof -
  have "range_up 1 (total_pics cfg + 1) = 1 # [2..total_pics cfg]"
    using assms(2) by (simp add: range_up_def upto_rec1)
  then show ?thesis
    using taking_photo_mkdir_fails [OF assms(1), of cfg 1]
    by (simp add: capture_photos_def seq_io_def bind_io_def)
qed

text \<open>
  Claim C7. The directory step of \<^verbatim>\<open>taking_photo\<close> does not raise when the directory is
  there, and leaves the directories and files as they are; after one call that
  succeeded a second call on the same path succeeds too and changes no directory and no
  file; a creation that fails with an errno other than \<^verbatim>\<open>EEXIST\<close> raises that
  \<^verbatim>\<open>OSError\<close>, out of \<^verbatim>\<open>taking_photo\<close> and out of the capture loop, before any
  countdown or capture.
\<close>

theorem ensure_dir_idempotent_or_fatal:
  "(dirname \<in> set (dirs w) \<longrightarrow>
      ensure_dir env dirname w = (Inr (), w\<lparr>trace := trace w @ [MakeDirs dirname]\<rparr>)) \<and>
   (fst (ensure_dir env dirname w) = Inr () \<longrightarrow>
      fst (ensure_dir env dirname (snd (ensure_dir env dirname w))) = Inr () \<and>
      dirs (snd (ensure_dir env dirname (snd (ensure_dir env dirname w)))) =
        dirs (snd (ensure_dir env dirname w)) \<and>
      files (snd (ensure_dir env dirname (snd (ensure_dir env dirname w)))) = files w) \<and>
   (dirname \<notin> set (dirs w) \<and> mkdir_errno env dirname = Some e \<and> e \<noteq> EEXIST \<longrightarrow>
      ensure_dir env dirname w =
        (Inl (OSError e), w\<lparr>trace := trace w @ [MakeDirs dirname]\<rparr>) \<and>
      taking_photo cfg env photo_number dirname w =
        (Inl (OSError e), w\<lparr>trace := trace w @ [MakeDirs dirname]\<rparr>) \<and>
      (1 \<le> total_pics cfg \<longrightarrow>
         capture_photos cfg env dirname w =
           (Inl (OSError e), w\<lparr>trace := trace w @ [MakeDirs dirname]\<rparr>)))"
  using ensure_dir_exists [of dirname w env] ensure_dir_twice [of env dirname w]
    ensure_dir_fails [of dirname w env e]
    taking_photo_mkdir_fails [of env dirname w "OSError e"
      "w\<lparr>trace := trace w @ [MakeDirs dirname]\<rparr>" cfg photo_number]
    capture_photos_mkdir_fails [of env dirname w "OSError e"
      "w\<lparr>trace := trace w @ [MakeDirs dirname]\<rparr>" cfg]
  by blast

theorem ensure_dir_idempotent_or_fatal_witness:
  "''/pi/photos/s'' \<in> set (dirs (initial_world ''/pi''\<lparr>dirs := [''/pi/photos/s'']\<rparr>)) \<and>
   fst (ensure_dir calm_env ''/pi/photos/s'' (initial_world ''/pi''\<lparr>dirs := [''/pi/photos/s'']\<rparr>)) = Inr () \<and>
   fst (ensure_dir calm_env ''/pi/photos/s'' (initial_world ''/pi'')) = Inr () \<and>
   fst (ensure_dir calm_env ''/pi/photos/s''
          (snd (ensure_dir calm_env ''/pi/photos/s'' (initial_world ''/pi'')))) = Inr () \<and>
   dirs (snd (ensure_dir calm_env ''/pi/photos/s''
          (snd (ensure_dir calm_env ''/pi/photos/s'' (initial_world ''/pi''))))) = [''/pi/photos/s''] \<and>
   ''/pi/photos/s'' \<notin> set (dirs (initial_world ''/pi'')) \<and>
   mkdir_errno denied_env ''/pi/photos/s'' = Some 13 \<and> 13 \<noteq> EEXIST \<and>
   1 \<le> total_pics booth_config \<and>
   fst (ensure_dir denied_env ''/pi/photos/s'' (initial_world ''/pi'')) = Inl (OSError 13) \<and>
   fst (taking_photo booth_config denied_env 1 ''/pi/photos/s'' (initial_world ''/pi'')) =
     Inl (OSError 13) \<and>
   capture_photos booth_config denied_env ''/pi/photos/s'' (initial_world ''/pi'') =
     (Inl (OSError 13),
      initial_world ''/pi''\<lparr>trace := trace (initial_world ''/pi'') @ [MakeDirs ''/pi/photos/s'']\<rparr>)"
proof -
  have a: "''/pi/photos/s'' \<in> set (dirs (initial_world ''/pi''\<lparr>dirs := [''/pi/photos/s'']\<rparr>))"
    by simp
  have b: "fst (ensure_dir calm_env ''/pi/photos/s'' (initial_world ''/pi'')) = Inr ()"
    by (simp add: ensure_dir_cases calm_env_def initial_world_def)
  have b2: "dirs (snd (ensure_dir calm_env ''/pi/photos/s'' (initial_world ''/pi''))) = [''/pi/photos/s'']"
    by (simp add: ensure_dir_cases calm_env_def initial_world_def)
  have c: "''/pi/photos/s'' \<notin> set (dirs (initial_world ''/pi'')) \<and>
           mkdir_errno denied_env ''/pi/photos/s'' = Some 13 \<and> 13 \<noteq> EEXIST \<and>
           1 \<le> total_pics booth_config"
    by (simp add: initial_world_def denied_env_def calm_env_def EEXIST_def total_pics_def
        booth_config_def)
  show ?thesis
    using a b b2 c
      ensure_dir_idempotent_or_fatal [of "''/pi/photos/s''"
        "initial_world ''/pi''\<lparr>dirs := [''/pi/photos/s'']\<rparr>" calm_env 13 booth_config 1]
      ensure_dir_idempotent_or_fatal [of "''/pi/photos/s''" "initial_world ''/pi''" calm_env 13
        booth_config 1]
      ensure_dir_idempotent_or_fatal [of "''/pi/photos/s''" "initial_world ''/pi''" denied_env 13
        booth_config 1]
    by simp
qed

section \<open>The blink cycle of the idle loop\<close>


lemma blink_step_plain:
  "blink_i st + 1 \<noteq> 2 \<Longrightarrow> blink_i st + 1 \<noteq> 4 \<Longrightarrow>
   blink_step st w = (Inr (st\<lparr>blink_i := blink_i st + 1\<rparr>), w)"
  by (simp add: blink_step_def blink_speed_def Let_def ret_def)








section \<open>Statements that leave the serial buffer and the image files alone\<close>

named_theorems keeps_intros

lemma keepsD: "keeps g m \<Longrightarrow> m w = (r, w') \<Longrightarrow> g w' = g w"
  by (metis keeps_def snd_conv)

lemma keeps_ret [keeps_intros]: "keeps g (ret a)"
  by (simp add: keeps_def ret_def)

lemma keeps_raise [keeps_intros]: "keeps g (raise e)"
  by (simp add: keeps_def raise_def)

lemma keeps_bind [keeps_intros]:
  assumes "keeps g m" and "\<And>a. keeps g (f a)"
  shows "keeps g (bind_io m f)"
proof -
  have "g (snd (bind_io m f w)) = g w" for w
  proof (cases "m w")
    case (Pair r w1)
    have a: "g w1 = g w" using assms(1) Pair by (rule keepsD)
    show ?thesis
    proof (cases r)
      case (Inl e)
      then show ?thesis using Pair a by (simp add: bind_io_def)
    next
      case (Inr v)
      have "g (snd (f v w1)) = g w1" using assms(2) by (simp add: keeps_def)
      then show ?thesis using Pair Inr a by (simp add: bind_io_def)
    qed
  qed
  then show ?thesis by (simp add: keeps_def)
qed

lemma keeps_seq [keeps_intros]: "keeps g m \<Longrightarrow> keeps g k \<Longrightarrow> keeps g (seq_io m k)"
  by (simp add: seq_io_def keeps_bind)

lemma keeps_if [keeps_intros]: "keeps g a \<Longrightarrow> keeps g b \<Longrightarrow> keeps g (if c then a else b)"
  by simp

lemma keeps_for_each [keeps_intros]: "(\<And>x. keeps g (body x)) \<Longrightarrow> keeps g (for_each xs body)"
  by (induction xs) (simp_all add: keeps_ret keeps_seq)

lemma captured_append: "captured (xs @ ys) = captured xs @ captured ys"
  by (induction xs rule: captured.induct) simp_all

lemma keeps_print [keeps_intros]: "keeps obs (print s)"
  by (simp add: keeps_def print_def emit_def obs_def captured_append)

lemma keeps_blocking [keeps_intros]: "keeps obs (blocking env)"
  by (simp add: keeps_def blocking_def obs_def)

lemma keeps_sleep [keeps_intros]: "keeps obs (sleep env d)"
proof -
  have "keeps obs (emit (Sleep d))"
    by (simp add: keeps_def emit_def obs_def captured_append)
  then show ?thesis by (simp add: sleep_def keeps_seq keeps_blocking)
qed

lemma keeps_Image_open [keeps_intros]: "keeps obs (Image_open p)"
  by (simp add: keeps_def Image_open_def split: option.splits)

lemma keeps_camera_add_overlay [keeps_intros]: "keeps obs (camera_add_overlay s p z)"
  by (simp add: keeps_def camera_add_overlay_def Let_def obs_def captured_append)

lemma keeps_set_layer [keeps_intros]: "keeps obs (set_layer h l)"
  by (simp add: keeps_def set_layer_def obs_def captured_append)

lemma keeps_camera_remove_overlay [keeps_intros]: "keeps obs (camera_remove_overlay h)"
  by (simp add: keeps_def camera_remove_overlay_def obs_def captured_append)

lemma keeps_set_annotate_text_size [keeps_intros]: "keeps obs (set_annotate_text_size n)"
  by (simp add: keeps_def set_annotate_text_size_def obs_def captured_append)

lemma keeps_set_annotate_text [keeps_intros]: "keeps obs (set_annotate_text s)"
  by (simp add: keeps_def set_annotate_text_def obs_def captured_append)

lemma keeps_ensure_dir [keeps_intros]: "keeps obs (ensure_dir env p)"
  by (simp add: keeps_def ensure_dir_cases obs_def captured_append split: option.splits)

lemma keeps_print_overlay [keeps_intros]: "keeps obs (print_overlay s n)"
  unfolding print_overlay_def by (intro keeps_intros)

lemma keeps_remove_overlay [keeps_intros]: "keeps obs (remove_overlay x)"
  by (cases x) (simp_all add: remove_overlay_def keeps_ret keeps_camera_remove_overlay)

lemma keeps_overlay_image [keeps_intros]: "keeps obs (overlay_image env p d l)"
  unfolding overlay_image_def Let_def by (intro keeps_intros)

lemma keeps_prep_for_photo_screen [keeps_intros]: "keeps obs (prep_for_photo_screen cfg env n)"
  unfolding prep_for_photo_screen_def Let_def by (intro keeps_intros)

lemma keeps_playback_loop [keeps_intros]: "keeps obs (playback_loop cfg env p ks prev)"
proof (induction ks arbitrary: prev)
  case Nil
  show ?case by (simp add: keeps_ret)
next
  case (Cons k ks)
  show ?case unfolding playback_loop.simps Let_def by (intro keeps_intros Cons.IH)
qed

lemma keeps_playback_screen [keeps_intros]: "keeps obs (playback_screen cfg env p)"
  unfolding playback_screen_def Let_def by (intro keeps_intros)

lemma keeps_countdown:
  "keeps obs (for_each xs (\<lambda>counter. seq_io (print_overlay (str_int counter) 160) (sleep env 1)))"
  by (intro keeps_intros)

section \<open>What a statement that returned normally has done\<close>

lemma bind_io_success:
  assumes "bind_io m f w = (Inr b, w')"
  obtains a w1 where "m w = (Inr a, w1)" and "f a w1 = (Inr b, w')"
  using assms by (auto simp: bind_io_def split: prod.splits sum.splits)

lemma seq_io_success:
  assumes "seq_io m k w = (Inr b, w')"
  obtains a w1 where "m w = (Inr a, w1)" and "k w1 = (Inr b, w')"
  using assms unfolding seq_io_def by (rule bind_io_success)

lemma camera_capture_success:
  assumes "camera_capture env f w = (Inr u, w')"
  shows "obs w' = (in_waiting w, (f, (photo_w, photo_h)) # files w, captured (trace w) @ [f])"
  using assms
  by (auto simp: camera_capture_def seq_io_def bind_io_def blocking_def obs_def captured_append
      split: if_splits)

lemma taking_photo_success:
  assumes "taking_photo cfg env n p w = (Inr u, w')"
  shows "obs w' =
           (in_waiting w, (photo_filename cfg p n, (photo_w, photo_h)) # files w,
            captured (trace w) @ [photo_filename cfg p n])"
proof -
  from assms obtain a1 w1 a2 w2 a3 w3 a4 w4 a5 w5 where
    s: "ensure_dir env p w = (Inr a1, w1)"
       "for_each (range_down 3 0)
          (\<lambda>counter. seq_io (print_overlay (str_int counter) 160) (sleep env 1)) w1 = (Inr a2, w2)"
       "set_annotate_text [] w2 = (Inr a3, w3)"
       "camera_capture env (photo_filename cfg p n) w3 = (Inr a4, w4)"
       "overlay_image env (REAL_PATH cfg @ ''/assets/white.png'') (1 / 10) 3 w4 = (Inr a5, w5)"
       "print (''Photo ('' @ str_int n @ '') saved: '' @ photo_filename cfg p n) w5 = (Inr u, w')"
    unfolding taking_photo_def Let_def by (elim seq_io_success) blast
  have "obs w1 = obs w" using keeps_ensure_dir s(1) by (rule keepsD)
  moreover have "obs w2 = obs w1" using keeps_countdown s(2) by (rule keepsD)
  moreover have "obs w3 = obs w2" using keeps_set_annotate_text s(3) by (rule keepsD)
  moreover have "obs w5 = obs w4" using keeps_overlay_image s(5) by (rule keepsD)
  moreover have "obs w' = obs w5" using keeps_print s(6) by (rule keepsD)
  ultimately show ?thesis using camera_capture_success [OF s(4)] by (simp add: obs_def)
qed

lemma for_each_taking_photo_success:
  assumes "for_each ns (\<lambda>n. taking_photo cfg env n p) w = (Inr u, w')"
  shows "obs w' =
           (in_waiting w, rev (map (\<lambda>n. (photo_filename cfg p n, (photo_w, photo_h))) ns) @ files w,
            captured (trace w) @ map (photo_filename cfg p) ns)"
  using assms
proof (induction ns arbitrary: w)
  case Nil
  then show ?case by (simp add: ret_def obs_def)
next
  case (Cons n ns)
  from Cons.prems obtain a w1 where
    s: "taking_photo cfg env n p w = (Inr a, w1)"
       "for_each ns (\<lambda>n. taking_photo cfg env n p) w1 = (Inr u, w')"
    by (auto elim: seq_io_success)
  show ?case using taking_photo_success [OF s(1)] Cons.IH [OF s(2)] by (simp add: obs_def)
qed

lemma capture_photos_success:
  assumes "capture_photos cfg env p w = (Inr u, w')"
  shows "obs w' =
           (in_waiting w,
            rev (map (\<lambda>n. (photo_filename cfg p n, (photo_w, photo_h))) [1..total_pics cfg]) @ files w,
            captured (trace w) @ map (photo_filename cfg p) [1..total_pics cfg])"
  using for_each_taking_photo_success [of "[1..total_pics cfg]" cfg env p w u w'] assms
  by (simp add: capture_photos_def range_up_def)

lemma run_session_success:
  assumes "run_session cfg env inp st w = (Inr u, w')"
  shows "obs w' =
           (in_waiting w + serial_during_session inp,
            rev (map (\<lambda>n. (photo_filename cfg
                   (get_base_filename_for_images (REAL_PATH cfg) (now inp)) n, (photo_w, photo_h)))
                 [1..total_pics cfg]) @ files w,
            captured (trace w) @
              map (photo_filename cfg (get_base_filename_for_images (REAL_PATH cfg) (now inp)))
                [1..total_pics cfg])"
proof -
  from assms obtain a1 w1 a2 w2 a3 w3 a4 w4 a5 w5 a6 w6 where
    s: "print ''Button pressed! You folks are in for a treat!'' w = (Inr a1, w1)"
       "remove_overlay (overlay_2 st) w1 = (Inr a2, w2)"
       "remove_overlay (overlay_1 st) w2 = (Inr a3, w3)"
       "serial_receive (serial_during_session inp) w3 = (Inr a4, w4)"
       "prep_for_photo_screen cfg env 1 w4 = (Inr a5, w5)"
       "capture_photos cfg env (get_base_filename_for_images (REAL_PATH cfg) (now inp)) w5 =
          (Inr a6, w6)"
       "playback_screen cfg env (get_base_filename_for_images (REAL_PATH cfg) (now inp)) w6 =
          (Inr u, w')"
    unfolding run_session_def Let_def by (elim seq_io_success) blast
  have "obs w1 = obs w" using keeps_print s(1) by (rule keepsD)
  moreover have "obs w2 = obs w1" using keeps_remove_overlay s(2) by (rule keepsD)
  moreover have "obs w3 = obs w2" using keeps_remove_overlay s(3) by (rule keepsD)
  moreover have "obs w4 = (in_waiting w3 + serial_during_session inp, files w3, captured (trace w3))"
    using s(4) by (auto simp: serial_receive_def obs_def)
  moreover have "obs w5 = obs w4" using keeps_prep_for_photo_screen s(5) by (rule keepsD)
  moreover have "obs w' = obs w6" using keeps_playback_screen s(7) by (rule keepsD)
  ultimately show ?thesis using capture_photos_success [OF s(6)] by (simp add: obs_def)
qed

section \<open>The files of a session\<close>

lemma str_nat_head_digit: "is_digit (hd (str_nat n))"
  using str_nat_digits [of n] str_nat_nonempty [of n] by (cases "str_nat n") simp_all

lemma str_int_inj: "str_int a = str_int b \<Longrightarrow> a = b"
proof -
  assume e: "str_int a = str_int b"
  have neq: "CHR ''-'' # s \<noteq> str_nat n" for s n
    using str_nat_head_digit [of n] is_digit_not_special [of "hd (str_nat n)"]
    by (cases "str_nat n") auto
  show ?thesis
  proof (cases "a < 0")
    case True
    show ?thesis
    proof (cases "b < 0")
      case True
      with \<open>a < 0\<close> e have "nat (- a) = nat (- b)" by (simp add: str_int_def str_nat_inj)
      with True \<open>a < 0\<close> show ?thesis by simp
    next
      case False
      with True e neq show ?thesis by (simp add: str_int_def)
    qed
  next
    case False
    show ?thesis
    proof (cases "b < 0")
      case True
      with False e neq [of "str_nat (nat (- b))" "nat a"] show ?thesis by (simp add: str_int_def)
    next
      case b: False
      with False e have "nat a = nat b" by (simp add: str_int_def str_nat_inj)
      with False b show ?thesis by simp
    qed
  qed
qed

lemma photo_filename_inj: "photo_filename cfg p a = photo_filename cfg p b \<Longrightarrow> a = b"
  by (simp add: photo_filename_def str_int_inj)

lemma distinct_photo_filenames: "distinct (map (photo_filename cfg p) [1..n])"
  by (simp add: distinct_map inj_on_def photo_filename_inj)

lemma events_since_extends:
  assumes "extends w w'"
  shows "trace w' = trace w @ events_since w w'"
  using assms by (auto simp: extends_def events_since_def)

lemma run_session_captured:
  assumes "run_session cfg env inp st w = (Inr u, w')"
  shows "captured (events_since w w') =
           map (photo_filename cfg (get_base_filename_for_images (REAL_PATH cfg) (now inp)))
             [1..total_pics cfg]"
proof -
  have "extends w w'" using quiet_run_session [of cfg env inp st] assms
    by (metis quiet_io_def snd_conv)
  then have "captured (trace w') = captured (trace w) @ captured (events_since w w')"
    using events_since_extends [of w w'] by (metis captured_append)
  then show ?thesis using run_session_success [OF assms] by (simp add: obs_def)
qed

text \<open>
  Claim C1. A session that runs to completion has, among its events, exactly the captures
  to \<^verbatim>\<open>prefix/1ofN.jpg\<close>, ..., \<^verbatim>\<open>prefix/NofN.jpg\<close> in this order, where \<open>N\<close> is
  \<^verbatim>\<open>total_pics\<close> and \<open>prefix\<close> the base name of the session: \<open>N\<close> files with different
  names. The image files after the session are these \<open>N\<close> files and the files that were
  there before: the session writes nothing else.
\<close>

theorem session_writes_total_pics_files:
  assumes "run_session cfg env inp st w = (Inr u, w')"
  shows "captured (events_since w w') =
           map (\<lambda>i. get_base_filename_for_images (REAL_PATH cfg) (now inp) @ ''/'' @ str_int i @
                     ''of'' @ str_int (total_pics cfg) @ ''.jpg'')
             [1..total_pics cfg] \<and>
         length (captured (events_since w w')) = nat (total_pics cfg) \<and>
         distinct (captured (events_since w w')) \<and>
         files w' =
           rev (map (\<lambda>i. (get_base_filename_for_images (REAL_PATH cfg) (now inp) @ ''/'' @
                            str_int i @ ''of'' @ str_int (total_pics cfg) @ ''.jpg'',
                          (photo_w, photo_h)))
                  [1..total_pics cfg]) @ files w"
proof -
  have c: "captured (events_since w w') =
           map (photo_filename cfg (get_base_filename_for_images (REAL_PATH cfg) (now inp)))
             [1..total_pics cfg]"
    using assms by (rule run_session_captured)
  have f: "files w' =
           rev (map (\<lambda>n. (photo_filename cfg
                   (get_base_filename_for_images (REAL_PATH cfg) (now inp)) n, (photo_w, photo_h)))
                 [1..total_pics cfg]) @ files w"
    using run_session_success [OF assms] by (simp add: obs_def)
  have d: "distinct (captured (events_since w w'))"
    unfolding c by (rule distinct_photo_filenames)
  have l: "length (captured (events_since w w')) = nat (total_pics cfg)"
    unfolding c by simp
  show ?thesis using c f d l by (simp add: photo_filename_def)
qed

lemma booth_session_runs:
  "fst (run_session booth_config calm_env press intro_shown ready_world) = Inr ()"
  by (simp add: io_eval py_eval ex_eval)

theorem session_writes_total_pics_files_witness:
  "run_session booth_config calm_env press intro_shown ready_world =
     (Inr (), snd (run_session booth_config calm_env press intro_shown ready_world)) \<and>
   captured (events_since ready_world
      (snd (run_session booth_config calm_env press intro_shown ready_world))) =
     [''/pi/photos/2017-12-31_23-59-59/1of4.jpg'', ''/pi/photos/2017-12-31_23-59-59/2of4.jpg'',
      ''/pi/photos/2017-12-31_23-59-59/3of4.jpg'', ''/pi/photos/2017-12-31_23-59-59/4of4.jpg'']"
proof -
  have s: "run_session booth_config calm_env press intro_shown ready_world =
     (Inr (), snd (run_session booth_config calm_env press intro_shown ready_world))"
    using booth_session_runs by (simp add: prod_eq_iff)
  have n: "map (\<lambda>i. get_base_filename_for_images (REAL_PATH booth_config) (now press) @ ''/'' @
                     str_int i @ ''of'' @ str_int (total_pics booth_config) @ ''.jpg'')
             [1..total_pics booth_config] =
     [''/pi/photos/2017-12-31_23-59-59/1of4.jpg'', ''/pi/photos/2017-12-31_23-59-59/2of4.jpg'',
      ''/pi/photos/2017-12-31_23-59-59/3of4.jpg'', ''/pi/photos/2017-12-31_23-59-59/4of4.jpg'']"
    by (simp add: get_base_filename_for_images_def str_datetime_def total_pics_def py_eval ex_eval)
  have "captured (events_since ready_world
      (snd (run_session booth_config calm_env press intro_shown ready_world))) =
      map (\<lambda>i. get_base_filename_for_images (REAL_PATH booth_config) (now press) @ ''/'' @
                     str_int i @ ''of'' @ str_int (total_pics booth_config) @ ''.jpg'')
             [1..total_pics booth_config]"
    using session_writes_total_pics_files [OF s] by (rule conjunct1)
  with n s show ?thesis by (simp only:)
qed

section \<open>The serial buffer after a session\<close>

lemma keeps_show_intro: "keeps obs (show_intro cfg env)"
  unfolding show_intro_def Let_def by (intro keeps_intros)

text \<open>
  Claim C10. In normal mode (auto-press off), when a round yields \<open>Capture\<close>, the session
  completes and the intro overlays are shown again: the bytes that arrived on the serial
  line during the session are still unread when the session ends; the loop, run for this
  one round, is then polling in a state in which the serial buffer has been reset and is
  empty; and run for one more round in which nothing is pressed and no new byte arrives,
  that round yields \<open>NoInput\<close>, so the loop does its blink step and is polling again: no
  second session starts.
\<close>

theorem serial_buffer_reset_after_session:
  assumes "\<not> TESTMODE_AUTOPRESS_BUTTON cfg"
    and "poll_cycle cfg env inp w = (Inr Capture, w1)"
    and "run_session cfg env inp st w1 = (Inr u, w2)"
    and "show_intro cfg env w2 = (Inr ovs, w3)"
    and "no_press nxt" and "interrupt_at env = None"
  shows "in_waiting w2 = in_waiting w1 + serial_during_session inp \<and>
         in_waiting w3 = in_waiting w2 \<and>
         main_loop cfg env [inp] st w =
           (Inr (Polling, st\<lparr>overlay_1 := fst ovs, overlay_2 := snd ovs\<rparr>),
            w3\<lparr>in_waiting := 0,
               trace := trace w3 @ [Print ''Press the button to take a photo'',
                                    ResetInputBuffer]\<rparr>) \<and>
         poll_cycle cfg env nxt
             (w3\<lparr>in_waiting := 0,
                 trace := trace w3 @ [Print ''Press the button to take a photo'',
                                      ResetInputBuffer]\<rparr>) =
           (Inr NoInput,
            w3\<lparr>in_waiting := 0, clock := clock w3 + 2,
               trace := trace w3 @ [Print ''Press the button to take a photo'', ResetInputBuffer] @
                        poll_waits\<rparr>) \<and>
         main_loop cfg env [inp, nxt] st w =
           bind_io (blink_step (st\<lparr>overlay_1 := fst ovs, overlay_2 := snd ovs\<rparr>))
             (\<lambda>s. ret (Polling, s))
             (w3\<lparr>in_waiting := 0, clock := clock w3 + 2,
                 trace := trace w3 @ [Print ''Press the button to take a photo'',
                                      ResetInputBuffer] @ poll_waits\<rparr>)"
proof -
  have a: "in_waiting w2 = in_waiting w1 + serial_during_session inp"
    using run_session_success [OF assms(3)] by (simp add: obs_def)
  have b: "in_waiting w3 = in_waiting w2"
    using keepsD [OF keeps_show_intro assms(4)] by (simp add: obs_def)
  have c: "main_loop cfg env (inp # rest) st w =
           main_loop cfg env rest (st\<lparr>overlay_1 := fst ovs, overlay_2 := snd ovs\<rparr>)
             (w3\<lparr>in_waiting := 0,
                 trace := trace w3 @ [Print ''Press the button to take a photo'',
                                      ResetInputBuffer]\<rparr>)" for rest
    using assms(1-4)
    by (cases u) (simp add: bind_io_def seq_io_def print_def emit_def ser_reset_input_buffer_def)
  have d: "poll_cycle cfg env nxt
             (w3\<lparr>in_waiting := 0,
                 trace := trace w3 @ [Print ''Press the button to take a photo'',
                                      ResetInputBuffer]\<rparr>) =
           (Inr NoInput,
            w3\<lparr>in_waiting := 0, clock := clock w3 + 2,
               trace := trace w3 @ [Print ''Press the button to take a photo'', ResetInputBuffer] @
                        poll_waits\<rparr>)"
    using assms(1,5,6)
    by (simp add: poll_cycle_quiet no_press_def poll_waits_def)
  have e: "main_loop cfg env [inp] st w =
           (Inr (Polling, st\<lparr>overlay_1 := fst ovs, overlay_2 := snd ovs\<rparr>),
            w3\<lparr>in_waiting := 0,
               trace := trace w3 @ [Print ''Press the button to take a photo'',
                                    ResetInputBuffer]\<rparr>)"
    unfolding c [of "[]"] by (simp add: ret_def)
  have n: "(\<lambda>s. main_loop cfg env [] s) = (\<lambda>s. ret (Polling, s))"
    by (rule ext) simp
  have f: "main_loop cfg env [inp, nxt] st w =
           bind_io (blink_step (st\<lparr>overlay_1 := fst ovs, overlay_2 := snd ovs\<rparr>))
             (\<lambda>s. ret (Polling, s))
             (w3\<lparr>in_waiting := 0, clock := clock w3 + 2,
                 trace := trace w3 @ [Print ''Press the button to take a photo'',
                                      ResetInputBuffer] @ poll_waits\<rparr>)"
    unfolding c [of "[nxt]"] main_loop.simps(2) [of cfg env nxt "[]"] n
    using d by (simp add: bind_io_def)
  show ?thesis using a b e d f by (intro conjI)
qed

lemma fast_poll: "poll_cycle fast_config calm_env busy_press ready_world = (Inr Capture, after_poll)"
proof -
  have "fst (poll_cycle fast_config calm_env busy_press ready_world) = Inr Capture"
    by (simp add: io_eval py_eval ex_eval)
  then show ?thesis by (simp add: after_poll_def prod_eq_iff)
qed

lemma fast_session:
  "run_session fast_config calm_env busy_press intro_shown after_poll = (Inr (), after_session)"
proof -
  have "fst (run_session fast_config calm_env busy_press intro_shown after_poll) = Inr ()"
    by (simp add: io_eval py_eval ex_eval)
  then show ?thesis by (simp add: after_session_def prod_eq_iff)
qed

lemma fast_intro:
  "show_intro fast_config calm_env after_session = (Inr (Renderer 7, Renderer 8), after_intro)"
proof -
  have "fst (show_intro fast_config calm_env after_session) = Inr (Renderer 7, Renderer 8)"
    by (simp add: io_eval py_eval ex_eval)
  then show ?thesis by (simp add: after_intro_def prod_eq_iff)
qed

lemma fast_facts:
  "\<not> TESTMODE_AUTOPRESS_BUTTON fast_config" "no_press quiet" "interrupt_at calm_env = None"
  "in_waiting after_poll = 0" "serial_during_session busy_press = 5"
  by (simp_all add: io_eval py_eval ex_eval no_press_def)

theorem serial_buffer_reset_after_session_witness:
  "\<not> TESTMODE_AUTOPRESS_BUTTON fast_config \<and> no_press quiet \<and> interrupt_at calm_env = None \<and>
   poll_cycle fast_config calm_env busy_press ready_world = (Inr Capture, after_poll) \<and>
   run_session fast_config calm_env busy_press intro_shown after_poll = (Inr (), after_session) \<and>
   show_intro fast_config calm_env after_session = (Inr (Renderer 7, Renderer 8), after_intro) \<and>
   in_waiting after_session = 5 \<and> in_waiting after_intro = 5 \<and>
   main_loop fast_config calm_env [busy_press] intro_shown ready_world =
     (Inr (Polling, intro_shown\<lparr>overlay_1 := Renderer 7, overlay_2 := Renderer 8\<rparr>),
      after_intro\<lparr>in_waiting := 0,
         trace := trace after_intro @ [Print ''Press the button to take a photo'',
                                       ResetInputBuffer]\<rparr>) \<and>
   in_waiting (snd (main_loop fast_config calm_env [busy_press] intro_shown ready_world)) = 0 \<and>
   fst (poll_cycle fast_config calm_env quiet
       (after_intro\<lparr>in_waiting := 0,
          trace := trace after_intro @ [Print ''Press the button to take a photo'',
                                        ResetInputBuffer]\<rparr>)) = Inr NoInput \<and>
   main_loop fast_config calm_env [busy_press, quiet] intro_shown ready_world =
     (Inr (Polling,
           intro_shown\<lparr>blink_i := 1, overlay_1 := Renderer 7, overlay_2 := Renderer 8\<rparr>),
      after_intro\<lparr>in_waiting := 0, clock := clock after_intro + 2,
         trace := trace after_intro @ [Print ''Press the button to take a photo'',
                                       ResetInputBuffer] @ poll_waits\<rparr>)"
  using fast_facts fast_poll fast_session fast_intro
    serial_buffer_reset_after_session [OF fast_facts(1) fast_poll fast_session fast_intro
      fast_facts(2) fast_facts(3)]
  by (simp del: main_loop.simps add: bind_io_def ret_def blink_step_plain intro_shown_def)

section \<open>The events of the screens\<close>

lemma sleep_success:
  "sleep env d w = (Inr u, w') \<Longrightarrow>
   trace w' = trace w @ [Sleep d] \<and> next_handle w' = next_handle w"
  by (auto simp: sleep_def seq_io_def bind_io_def blocking_def emit_def split: if_splits)

lemma overlay_image_timed:
  assumes "0 < d" and "overlay_image env p d l w = (Inr r, w')"
  shows "r = NoOverlay \<and>
         trace w' = trace w @ [AddOverlay (next_handle w) p, SetLayer (next_handle w) l, Sleep d,
                               RemoveOverlay (next_handle w)] \<and>
         next_handle w' = next_handle w + 1"
  using assms
  by (auto simp: overlay_image_def Let_def bind_io_def seq_io_def Image_open_def
      camera_add_overlay_def set_layer_def sleep_def blocking_def emit_def
      camera_remove_overlay_def ret_def split: option.splits if_splits)

lemma overlay_image_persistent:
  assumes "\<not> 0 < d" and "overlay_image env p d l w = (Inr r, w')"
  shows "r = Renderer (next_handle w) \<and>
         trace w' = trace w @ [AddOverlay (next_handle w) p, SetLayer (next_handle w) l] \<and>
         next_handle w' = next_handle w + 1"
  using assms
  by (auto simp: overlay_image_def Let_def bind_io_def seq_io_def Image_open_def
      camera_add_overlay_def set_layer_def ret_def split: option.splits if_splits)

lemma ensure_dir_success:
  assumes "ensure_dir env p w = (Inr u, w')"
  shows "trace w' = trace w @ [MakeDirs p] \<and> next_handle w' = next_handle w \<and>
         (p \<in> set (dirs w) \<or> mkdir_errno env p = None \<or> mkdir_errno env p = Some EEXIST)"
  using assms by (auto simp: ensure_dir_cases split: if_splits option.splits)

lemma countdown_round_success:
  assumes "seq_io (print_overlay s 160) (sleep env 1) w = (Inr u, w')"
  shows "trace w' = trace w @ countdown_steps s \<and> next_handle w' = next_handle w"
  using assms
  by (auto simp: seq_io_def bind_io_def print_overlay_def print_def emit_def
      set_annotate_text_size_def set_annotate_text_def sleep_def blocking_def countdown_steps_def
      split: if_splits)

lemma range_down_3: "range_down 3 0 = [3, 2, 1]"
  by (simp add: range_down_def upto.simps)

lemma str_int_321: "str_int 3 = ''3''" "str_int 2 = ''2''" "str_int 1 = ''1''"
  by (simp_all add: py_eval)

lemma countdown_success:
  assumes "for_each (range_down 3 0)
             (\<lambda>counter. seq_io (print_overlay (str_int counter) 160) (sleep env 1)) w = (Inr u, w')"
  shows "trace w' = trace w @ countdown_steps ''3'' @ countdown_steps ''2'' @ countdown_steps ''1'' \<and>
         next_handle w' = next_handle w"
proof -
  from assms obtain a1 w1 a2 w2 a3 w3 where
    s: "seq_io (print_overlay ''3'' 160) (sleep env 1) w = (Inr a1, w1)"
       "seq_io (print_overlay ''2'' 160) (sleep env 1) w1 = (Inr a2, w2)"
       "seq_io (print_overlay ''1'' 160) (sleep env 1) w2 = (Inr a3, w3)"
       "ret () w3 = (Inr u, w')"
    unfolding range_down_3 for_each.simps str_int_321
    by (elim seq_io_success [where m = "seq_io _ _"]) blast
  from s(4) have "w' = w3" by (simp add: ret_def)
  then show ?thesis
    using countdown_round_success [OF s(1)] countdown_round_success [OF s(2)]
      countdown_round_success [OF s(3)]
    by simp
qed

lemma camera_capture_events:
  assumes "camera_capture env f w = (Inr u, w')"
  shows "trace w' = trace w @ [CaptureStill f] \<and> next_handle w' = next_handle w"
  using assms
  by (auto simp: camera_capture_def seq_io_def bind_io_def blocking_def split: if_splits)

lemma taking_photo_events:
  assumes "taking_photo cfg env n p w = (Inr u, w')"
  shows "trace w' = trace w @ photo_steps cfg p (next_handle w) n \<and>
         next_handle w' = next_handle w + 1 \<and>
         (p \<in> set (dirs w) \<or> mkdir_errno env p = None \<or> mkdir_errno env p = Some EEXIST)"
proof -
  from assms obtain a1 w1 a2 w2 a3 w3 a4 w4 a5 w5 where
    s: "ensure_dir env p w = (Inr a1, w1)"
       "for_each (range_down 3 0)
          (\<lambda>counter. seq_io (print_overlay (str_int counter) 160) (sleep env 1)) w1 = (Inr a2, w2)"
       "set_annotate_text [] w2 = (Inr a3, w3)"
       "camera_capture env (photo_filename cfg p n) w3 = (Inr a4, w4)"
       "overlay_image env (REAL_PATH cfg @ ''/assets/white.png'') (1 / 10) 3 w4 = (Inr a5, w5)"
       "print (''Photo ('' @ str_int n @ '') saved: '' @ photo_filename cfg p n) w5 = (Inr u, w')"
    unfolding taking_photo_def Let_def by (elim seq_io_success) blast
  have t3: "trace w3 = trace w2 @ [SetAnnotateText []] \<and> next_handle w3 = next_handle w2"
    using s(3) by (auto simp: set_annotate_text_def)
  have t6: "trace w' = trace w5 @
              [Print (''Photo ('' @ str_int n @ '') saved: '' @ photo_filename cfg p n)] \<and>
            next_handle w' = next_handle w5"
    using s(6) by (auto simp: print_def emit_def)
  have d: "(0::rat) < 1 / 10" by simp
  show ?thesis
    using ensure_dir_success [OF s(1)] countdown_success [OF s(2)] t3
      camera_capture_events [OF s(4)] overlay_image_timed [OF d s(5)] t6
    by (simp add: photo_steps_def photo_filename_def)
qed

lemma for_each_taking_photo_events:
  assumes "for_each ns (\<lambda>n. taking_photo cfg env n p) w = (Inr u, w')"
  shows "trace w' = trace w @
           concat (map (\<lambda>(k, n). photo_steps cfg p (next_handle w + k) n) (enumerate 0 ns)) \<and>
         next_handle w' = next_handle w + length ns"
  using assms
proof (induction ns arbitrary: w)
  case Nil
  then show ?case by (simp add: ret_def)
next
  case (Cons n ns)
  from Cons.prems obtain a w1 where
    s: "taking_photo cfg env n p w = (Inr a, w1)"
       "for_each ns (\<lambda>n. taking_photo cfg env n p) w1 = (Inr u, w')"
    by (auto elim: seq_io_success)
  have e: "map (\<lambda>(k, n). photo_steps cfg p (next_handle w + k) n) (enumerate (Suc 0) ns) =
           map (\<lambda>(k, n). photo_steps cfg p (Suc (next_handle w) + k) n) (enumerate 0 ns)"
    by (auto simp add: enumerate_eq_zip map_zip_map [symmetric] zip_map1 map_Suc_upt [symmetric]
        simp del: upt_Suc)
  show ?case using taking_photo_events [OF s(1)] Cons.IH [OF s(2)] e by simp
qed

lemma enumerate_upto_map:
  "map (\<lambda>(k, n). F (h + k) n) (enumerate 0 [1..N]) = map (\<lambda>i. F (h + nat (i - 1)) i) [1..N]"
proof (rule nth_equalityI)
  show "length (map (\<lambda>(k, n). F (h + k) n) (enumerate 0 [1..N])) =
        length (map (\<lambda>i. F (h + nat (i - 1)) i) [1..N])"
    by simp
next
  fix i assume "i < length (map (\<lambda>(k, n). F (h + k) n) (enumerate 0 [1..N]))"
  then have i: "i < length [1..N]" by simp
  then have n: "[1..N] ! i = 1 + int i" by (simp add: nth_upto)
  show "map (\<lambda>(k, n). F (h + k) n) (enumerate 0 [1..N]) ! i =
        map (\<lambda>i. F (h + nat (i - 1)) i) [1..N] ! i"
    using i n by (simp add: nth_enumerate_eq)
qed

lemma capture_photos_events:
  assumes "capture_photos cfg env p w = (Inr u, w')"
  shows "trace w' = trace w @
           concat (map (\<lambda>i. photo_steps cfg p (next_handle w + nat (i - 1)) i) [1..total_pics cfg])"
  using for_each_taking_photo_events [of "[1..total_pics cfg]" cfg env p w u w'] assms
    enumerate_upto_map [of "photo_steps cfg p" "next_handle w" "total_pics cfg"]
  by (simp add: capture_photos_def range_up_def)

text \<open>
  Claim C6. A call of \<^verbatim>\<open>taking_photo\<close> that returns has done exactly the steps of
  \<open>photo_steps\<close>, in this order: the directory creation, the countdown 3, 2, 1 at text
  size 160 with a sleep of one second after each, the clearing of the text, the capture
  to \<^verbatim>\<open>prefix/<number>of<total>.jpg\<close>, the flash overlay shown for a tenth of a second,
  and the message. The directory step returned because the directory was there, was
  created, or the creation reported \<^verbatim>\<open>EEXIST\<close>; when it raises, \<^verbatim>\<open>taking_photo\<close> raises the
  same exception with nothing done after it. A capture loop that returns has done these
  steps once for each photo number from 1 to \<^verbatim>\<open>total_pics\<close>.
\<close>

theorem taking_photo_step_order:
  "(taking_photo cfg env photo_number filename_prefix w = (Inr u, w') \<longrightarrow>
      trace w' = trace w @ photo_steps cfg filename_prefix (next_handle w) photo_number \<and>
      (filename_prefix \<in> set (dirs w) \<or> mkdir_errno env filename_prefix = None \<or>
       mkdir_errno env filename_prefix = Some EEXIST)) \<and>
   (capture_photos cfg env filename_prefix w = (Inr u, w') \<longrightarrow>
      trace w' = trace w @
        concat (map (\<lambda>i. photo_steps cfg filename_prefix (next_handle w + nat (i - 1)) i)
                  [1..total_pics cfg])) \<and>
   (ensure_dir env filename_prefix w = (Inl e, w1) \<longrightarrow>
      taking_photo cfg env photo_number filename_prefix w = (Inl e, w1))"
  using taking_photo_events [of cfg env photo_number filename_prefix w u w']
    capture_photos_events [of cfg env filename_prefix w u w']
    taking_photo_mkdir_fails [of env filename_prefix w e w1 cfg photo_number]
  by blast

lemma second_photo_runs:
  "fst (taking_photo booth_config calm_env 2 ''/pi/photos/s'' (initial_world ''/pi'')) = Inr ()"
  by (simp add: io_eval py_eval ex_eval)

lemma fast_capture_runs:
  "fst (capture_photos fast_config calm_env ''/pi/photos/s'' (initial_world ''/pi'')) = Inr ()"
  by (simp add: io_eval py_eval ex_eval)

lemma denied_dir:
  "ensure_dir denied_env ''/pi/photos/s'' (initial_world ''/pi'') =
     (Inl (OSError 13),
      initial_world ''/pi''\<lparr>trace := trace (initial_world ''/pi'') @ [MakeDirs ''/pi/photos/s'']\<rparr>)"
  by (simp add: ensure_dir_cases denied_env_def calm_env_def initial_world_def EEXIST_def)

theorem taking_photo_step_order_witness:
  "taking_photo booth_config calm_env 2 ''/pi/photos/s'' (initial_world ''/pi'') =
     (Inr (), snd (taking_photo booth_config calm_env 2 ''/pi/photos/s'' (initial_world ''/pi''))) \<and>
   trace (snd (taking_photo booth_config calm_env 2 ''/pi/photos/s'' (initial_world ''/pi''))) =
     [MakeDirs ''/pi/photos/s'',
      Print ''3'', SetAnnotateTextSize 160, SetAnnotateText ''3'', Sleep 1,
      Print ''2'', SetAnnotateTextSize 160, SetAnnotateText ''2'', Sleep 1,
      Print ''1'', SetAnnotateTextSize 160, SetAnnotateText ''1'', Sleep 1,
      SetAnnotateText [], CaptureStill ''/pi/photos/s/2of4.jpg'',
      AddOverlay 0 ''/pi/assets/white.png'', SetLayer 0 3, Sleep (1 / 10), RemoveOverlay 0,
      Print ''Photo (2) saved: /pi/photos/s/2of4.jpg''] \<and>
   capture_photos fast_config calm_env ''/pi/photos/s'' (initial_world ''/pi'') =
     (Inr (), snd (capture_photos fast_config calm_env ''/pi/photos/s'' (initial_world ''/pi''))) \<and>
   trace (snd (capture_photos fast_config calm_env ''/pi/photos/s'' (initial_world ''/pi''))) =
     photo_steps fast_config ''/pi/photos/s'' 0 1 \<and>
   ensure_dir denied_env ''/pi/photos/s'' (initial_world ''/pi'') =
     (Inl (OSError 13),
      initial_world ''/pi''\<lparr>trace := trace (initial_world ''/pi'') @ [MakeDirs ''/pi/photos/s'']\<rparr>) \<and>
   taking_photo booth_config denied_env 2 ''/pi/photos/s'' (initial_world ''/pi'') =
     (Inl (OSError 13),
      initial_world ''/pi''\<lparr>trace := trace (initial_world ''/pi'') @ [MakeDirs ''/pi/photos/s'']\<rparr>)"
proof -
  have a: "taking_photo booth_config calm_env 2 ''/pi/photos/s'' (initial_world ''/pi'') =
     (Inr (), snd (taking_photo booth_config calm_env 2 ''/pi/photos/s'' (initial_world ''/pi'')))"
    using second_photo_runs by (simp add: prod_eq_iff)
  have b: "capture_photos fast_config calm_env ''/pi/photos/s'' (initial_world ''/pi'') =
     (Inr (), snd (capture_photos fast_config calm_env ''/pi/photos/s'' (initial_world ''/pi'')))"
    using fast_capture_runs by (simp add: prod_eq_iff)
  have n: "trace (initial_world ''/pi'') = []" "next_handle (initial_world ''/pi'') = 0"
    "total_pics fast_config = 1"
    by (simp_all add: initial_world_def total_pics_def fast_config_def booth_config_def)
  have p: "photo_steps booth_config ''/pi/photos/s'' 0 2 =
     [MakeDirs ''/pi/photos/s'',
      Print ''3'', SetAnnotateTextSize 160, SetAnnotateText ''3'', Sleep 1,
      Print ''2'', SetAnnotateTextSize 160, SetAnnotateText ''2'', Sleep 1,
      Print ''1'', SetAnnotateTextSize 160, SetAnnotateText ''1'', Sleep 1,
      SetAnnotateText [], CaptureStill ''/pi/photos/s/2of4.jpg'',
      AddOverlay 0 ''/pi/assets/white.png'', SetLayer 0 3, Sleep (1 / 10), RemoveOverlay 0,
      Print ''Photo (2) saved: /pi/photos/s/2of4.jpg'']"
    by (simp add: photo_steps_def countdown_steps_def total_pics_def booth_config_def py_eval)
  have t1: "trace (snd (taking_photo booth_config calm_env 2 ''/pi/photos/s'' (initial_world ''/pi''))) =
      photo_steps booth_config ''/pi/photos/s'' 0 2"
    using taking_photo_step_order [of booth_config calm_env 2 "''/pi/photos/s''"
        "initial_world ''/pi''" "()"
        "snd (taking_photo booth_config calm_env 2 ''/pi/photos/s'' (initial_world ''/pi''))"] a n
    by simp
  have t2: "trace (snd (capture_photos fast_config calm_env ''/pi/photos/s'' (initial_world ''/pi''))) =
      photo_steps fast_config ''/pi/photos/s'' 0 1"
    using taking_photo_step_order [of fast_config calm_env 1 "''/pi/photos/s''"
        "initial_world ''/pi''" "()"
        "snd (capture_photos fast_config calm_env ''/pi/photos/s'' (initial_world ''/pi''))"] b n
    by (simp add: upto.simps)
  have t3: "taking_photo booth_config denied_env 2 ''/pi/photos/s'' (initial_world ''/pi'') =
     (Inl (OSError 13),
      initial_world ''/pi''\<lparr>trace := trace (initial_world ''/pi'') @ [MakeDirs ''/pi/photos/s'']\<rparr>)"
    using taking_photo_step_order [of booth_config denied_env 2 "''/pi/photos/s''"
        "initial_world ''/pi''" "()" "initial_world ''/pi''" "OSError 13"
        "initial_world ''/pi''\<lparr>trace := trace (initial_world ''/pi'') @ [MakeDirs ''/pi/photos/s'']\<rparr>"]
      denied_dir
    by blast
  from a b t1 [unfolded p] t2 denied_dir t3 show ?thesis by (intro conjI)
qed

section \<open>The playback\<close>

lemma remove_overlay_success:
  assumes "remove_overlay (Renderer h) w = (Inr u, w')"
  shows "trace w' = trace w @ [RemoveOverlay h] \<and> next_handle w' = next_handle w"
  using assms by (auto simp: remove_overlay_def camera_remove_overlay_def split: if_splits)

lemma playback_loop_events:
  assumes "playback_loop cfg env p ks (Renderer prev) w = (Inr r, w')"
    and "next_handle w = prev + 1"
  shows "trace w' = trace w @ slideshow cfg p prev ks \<and>
         next_handle w' = prev + 1 + length ks \<and> r = Renderer (prev + length ks)"
  using assms
proof (induction ks arbitrary: w prev)
  case Nil
  then show ?case by (simp add: ret_def)
next
  case (Cons k ks)
  from Cons.prems(1) obtain this w1 a2 w2 a3 w3 where
    s: "overlay_image env (photo_filename cfg p k) 0 (3 + total_pics cfg) w = (Inr this, w1)"
       "remove_overlay (Renderer prev) w1 = (Inr a2, w2)"
       "sleep env 1 w2 = (Inr a3, w3)"
       "playback_loop cfg env p ks this w3 = (Inr r, w')"
    by (auto simp: Let_def elim!: bind_io_success seq_io_success)
  have z: "\<not> (0::rat) < 0" by simp
  note o = overlay_image_persistent [OF z s(1)]
  note m = remove_overlay_success [OF s(2)]
  note l = sleep_success [OF s(3)]
  have t: "this = Renderer (prev + 1)" using o Cons.prems(2) by simp
  have n: "next_handle w3 = (prev + 1) + 1" using o m l Cons.prems(2) by simp
  have "trace w' = trace w3 @ slideshow cfg p (prev + 1) ks \<and>
        next_handle w' = (prev + 1) + 1 + length ks \<and> r = Renderer ((prev + 1) + length ks)"
    using s(4) n unfolding t by (rule Cons.IH)
  then show ?case using o m l Cons.prems(2) by simp
qed

lemma never_blank_slideshow: "never_blank [h] (slideshow cfg p h ks)"
  by (induction ks arbitrary: h) simp_all

lemma never_blank_phase:
  "never_blank [] (AddOverlay h s # SetLayer h l # slideshow cfg p h ks)"
  by (simp add: never_blank_slideshow)

lemma slideshow_head:
  assumes "1 \<le> a"
  shows "[AddOverlay (h0 + nat a - 1 + 1) (photo_filename cfg p a),
          SetLayer (h0 + nat a - 1 + 1) (3 + total_pics cfg),
          RemoveOverlay (h0 + nat a - 1), Sleep 1] = slide_steps cfg p h0 a"
  using assms by (simp add: slide_steps_def photo_filename_def)

lemma slideshow_upto:
  "1 \<le> a \<Longrightarrow>
   slideshow cfg p (h0 + nat a - 1) [a..b] = concat (map (slide_steps cfg p h0) [a..b])"
proof (induction a b rule: upto.induct)
  case (1 a b)
  show ?case
  proof (cases "a \<le> b")
    case True
    then have u: "[a..b] = a # [a + 1..b]" by (simp add: upto_rec1)
    have h: "h0 + nat (a + 1) - 1 = h0 + nat a - 1 + 1"
      using "1.prems" by simp
    have "slideshow cfg p (h0 + nat (a + 1) - 1) [a + 1..b] =
          concat (map (slide_steps cfg p h0) [a + 1..b])"
      using "1.IH" [OF True] "1.prems" by simp
    then have i: "slideshow cfg p (h0 + nat a - 1 + 1) [a + 1..b] =
          concat (map (slide_steps cfg p h0) [a + 1..b])"
      unfolding h .
    show ?thesis unfolding u slideshow.simps i slideshow_head [OF "1.prems"] by simp
  next
    case False
    then show ?thesis by simp
  qed
qed

lemma slideshow_total: "slideshow cfg p h0 [1..N] = concat (map (slide_steps cfg p h0) [1..N])"
  using slideshow_upto [of 1 cfg p h0 N] by simp

lemma playback_screen_events:
  assumes "playback_screen cfg env p w = (Inr u, w')"
  shows "trace w' = trace w @ [Print ''Processing...''] @
           (AddOverlay (next_handle w) (REAL_PATH cfg @ ''/assets/processing.png'') #
            SetLayer (next_handle w) 3 #
            slideshow cfg p (next_handle w) [1..total_pics cfg]) @
           [RemoveOverlay (next_handle w + nat (total_pics cfg)), Print ''All done!'',
            AddOverlay (next_handle w + nat (total_pics cfg) + 1) (REAL_PATH cfg @ ''/assets/all_done.png''),
            SetLayer (next_handle w + nat (total_pics cfg) + 1) 3, Sleep 20,
            RemoveOverlay (next_handle w + nat (total_pics cfg) + 1)]"
proof -
  from assms obtain a1 w1 prev w2 last w3 a4 w4 a5 w5 a6 w6 where
    s: "print ''Processing...'' w = (Inr a1, w1)"
       "overlay_image env (REAL_PATH cfg @ ''/assets/processing.png'') 0 3 w1 = (Inr prev, w2)"
       "playback_loop cfg env p (range_up 1 (total_pics cfg + 1)) prev w2 = (Inr last, w3)"
       "remove_overlay last w3 = (Inr a4, w4)"
       "print ''All done!'' w4 = (Inr a5, w5)"
       "overlay_image env (REAL_PATH cfg @ ''/assets/all_done.png'') 20 3 w5 = (Inr a6, w6)"
       "ret () w6 = (Inr u, w')"
    unfolding playback_screen_def Let_def
    by (elim seq_io_success bind_io_success) blast
  have t1: "trace w1 = trace w @ [Print ''Processing...''] \<and> next_handle w1 = next_handle w"
    using s(1) by (auto simp: print_def emit_def)
  have z: "\<not> (0::rat) < 0" by simp
  note o = overlay_image_persistent [OF z s(2)]
  have pv: "prev = Renderer (next_handle w)" using o t1 by simp
  have n2: "next_handle w2 = next_handle w + 1" using o t1 by simp
  have s3: "playback_loop cfg env p [1..total_pics cfg] (Renderer (next_handle w)) w2 =
              (Inr last, w3)"
    using s(3) unfolding pv range_up_def by simp
  note l = playback_loop_events [OF s3 n2]
  have len: "length [1..total_pics cfg] = nat (total_pics cfg)" by simp
  have r: "trace w4 = trace w3 @ [RemoveOverlay (next_handle w + nat (total_pics cfg))] \<and>
           next_handle w4 = next_handle w3"
    using s(4) l remove_overlay_success [of "next_handle w + nat (total_pics cfg)" w3 a4 w4]
    unfolding len by simp
  have t5: "trace w5 = trace w4 @ [Print ''All done!''] \<and> next_handle w5 = next_handle w4"
    using s(5) by (auto simp: print_def emit_def)
  have d: "(0::rat) < 20" by simp
  note f = overlay_image_timed [OF d s(6)]
  have e: "w' = w6" using s(7) by (simp add: ret_def)
  show ?thesis using t1 o l r t5 f unfolding e len by simp
qed

text \<open>
  Claim C2. A playback that returns has these events, where \<open>h0\<close> is the handle of the
  "processing" overlay: that overlay is added; then, for each photo number \<open>i\<close> from 1 to
  \<^verbatim>\<open>total_pics\<close> in turn, the overlay of photo \<open>i\<close> is added (handle \<open>h0 + i\<close>, layer
  \<^verbatim>\<open>3 + total_pics\<close>), and only then the overlay with handle \<open>h0 + i - 1\<close> is removed (the
  "processing" overlay for \<open>i = 1\<close>, the overlay of photo \<open>i - 1\<close> otherwise), followed by
  a sleep of one second; after the loop the overlay of the last photo is removed and the
  "all done" overlay is added, kept for 20 seconds and removed. From the adding of the
  "processing" overlay to the end of the loop some overlay of the playback is on the
  screen after every event.
\<close>

theorem playback_adds_before_removing:
  assumes "playback_screen cfg env filename_prefix w = (Inr u, w')"
  shows "trace w' = trace w @ [Print ''Processing...''] @
           (AddOverlay (next_handle w) (REAL_PATH cfg @ ''/assets/processing.png'') #
            SetLayer (next_handle w) 3 #
            concat (map (slide_steps cfg filename_prefix (next_handle w)) [1..total_pics cfg])) @
           [RemoveOverlay (next_handle w + nat (total_pics cfg)), Print ''All done!'',
            AddOverlay (next_handle w + nat (total_pics cfg) + 1)
              (REAL_PATH cfg @ ''/assets/all_done.png''),
            SetLayer (next_handle w + nat (total_pics cfg) + 1) 3, Sleep 20,
            RemoveOverlay (next_handle w + nat (total_pics cfg) + 1)] \<and>
         never_blank []
           (AddOverlay (next_handle w) (REAL_PATH cfg @ ''/assets/processing.png'') #
            SetLayer (next_handle w) 3 #
            concat (map (slide_steps cfg filename_prefix (next_handle w)) [1..total_pics cfg]))"
  using playback_screen_events [OF assms]
    never_blank_phase [of "next_handle w" "REAL_PATH cfg @ ''/assets/processing.png''" 3 cfg
      filename_prefix "[1..total_pics cfg]"]
  unfolding slideshow_total by simp

lemma two_playback_runs:
  "fst (playback_screen two_config calm_env ''/pi/photos/s'' two_photos_world) = Inr ()"
  by (simp add: io_eval py_eval ex_eval)

lemma two_facts:
  "next_handle two_photos_world = 2" "total_pics two_config = 2" "REAL_PATH two_config = ''/pi''"
  by (simp_all add: io_eval py_eval ex_eval)

lemma two_slides:
  "concat (map (slide_steps two_config ''/pi/photos/s'' 2) [1..2]) =
     [AddOverlay 3 ''/pi/photos/s/1of2.jpg'', SetLayer 3 5, RemoveOverlay 2, Sleep 1,
      AddOverlay 4 ''/pi/photos/s/2of2.jpg'', SetLayer 4 5, RemoveOverlay 3, Sleep 1]"
  by (simp add: slide_steps_def two_facts py_eval)

theorem playback_adds_before_removing_witness:
  "playback_screen two_config calm_env ''/pi/photos/s'' two_photos_world =
     (Inr (), snd (playback_screen two_config calm_env ''/pi/photos/s'' two_photos_world)) \<and>
   trace (snd (playback_screen two_config calm_env ''/pi/photos/s'' two_photos_world)) =
     trace two_photos_world @
     [Print ''Processing...'', AddOverlay 2 ''/pi/assets/processing.png'', SetLayer 2 3,
      AddOverlay 3 ''/pi/photos/s/1of2.jpg'', SetLayer 3 5, RemoveOverlay 2, Sleep 1,
      AddOverlay 4 ''/pi/photos/s/2of2.jpg'', SetLayer 4 5, RemoveOverlay 3, Sleep 1,
      RemoveOverlay 4, Print ''All done!'', AddOverlay 5 ''/pi/assets/all_done.png'',
      SetLayer 5 3, Sleep 20, RemoveOverlay 5] \<and>
   never_blank []
     [AddOverlay 2 ''/pi/assets/processing.png'', SetLayer 2 3,
      AddOverlay 3 ''/pi/photos/s/1of2.jpg'', SetLayer 3 5, RemoveOverlay 2, Sleep 1,
      AddOverlay 4 ''/pi/photos/s/2of2.jpg'', SetLayer 4 5, RemoveOverlay 3, Sleep 1]"
proof -
  have a: "playback_screen two_config calm_env ''/pi/photos/s'' two_photos_world =
     (Inr (), snd (playback_screen two_config calm_env ''/pi/photos/s'' two_photos_world))"
    using two_playback_runs by (simp add: prod_eq_iff)
  show ?thesis
    using a playback_adds_before_removing [OF a]
    unfolding two_facts two_slides
    by simp
qed

section \<open>The fast test mode\<close>

lemma prep_for_photo_screen_events:
  assumes "0 < prep_delay cfg" and "prep_for_photo_screen cfg env n w = (Inr u, w')"
  shows "trace w' = trace w @
           [AddOverlay (next_handle w) (REAL_PATH cfg @ ''/assets/get_ready.png''),
            SetLayer (next_handle w) 3, Sleep (prep_delay cfg), RemoveOverlay (next_handle w)]"
proof -
  from assms(2) obtain r w1 where
    s: "overlay_image env (REAL_PATH cfg @ ''/assets/get_ready.png'') (prep_delay cfg) 3 w = (Inr r, w1)"
       "ret () w1 = (Inr u, w')"
    unfolding prep_for_photo_screen_def Let_def by (elim seq_io_success) blast
  from s(2) have "w' = w1" by (simp add: ret_def)
  then show ?thesis using overlay_image_timed [OF assms(1) s(1)] by simp
qed

lemma main_loop_after_session:
  assumes "poll_cycle cfg env inp w = (Inr Capture, w1)"
    and "run_session cfg env inp st w1 = (Inr u, w2)"
  shows "TESTMODE_AUTOPRESS_BUTTON cfg \<Longrightarrow>
           main_loop cfg env (inp # rest) st w = (Inr (Broke, st), w2)"
    and "\<not> TESTMODE_AUTOPRESS_BUTTON cfg \<Longrightarrow> show_intro cfg env w2 = (Inr ovs, w3) \<Longrightarrow>
           main_loop cfg env (inp # rest) st w =
             main_loop cfg env rest (st\<lparr>overlay_1 := fst ovs, overlay_2 := snd ovs\<rparr>)
               (w3\<lparr>in_waiting := 0,
                   trace := trace w3 @ [Print ''Press the button to take a photo'',
                                        ResetInputBuffer]\<rparr>)"
  using assms
  by (cases u; simp add: bind_io_def seq_io_def ret_def print_def emit_def
        ser_reset_input_buffer_def)+

text \<open>
  Claim C4, as the code has it. With the fast flag set, \<^verbatim>\<open>total_pics\<close> is 1 and the
  preparation delay is 1 second: the "get ready" overlay is kept for one second, and a
  session that completes captures exactly the one photo \<^verbatim>\<open>prefix/1of1.jpg\<close>. Whether the
  process then ends is decided by the auto-press flag alone: with it the loop is left
  through its \<^verbatim>\<open>break\<close>, without it the intro overlays are shown again, the serial buffer
  is reset and the loop goes on with its next round.
\<close>

theorem fast_mode_one_photo:
  assumes "TESTMODE_FAST cfg"
  shows "total_pics cfg = 1 \<and> prep_delay cfg = 1 \<and>
         (prep_for_photo_screen cfg env n w = (Inr u, w') \<longrightarrow>
            trace w' = trace w @
              [AddOverlay (next_handle w) (REAL_PATH cfg @ ''/assets/get_ready.png''),
               SetLayer (next_handle w) 3, Sleep 1, RemoveOverlay (next_handle w)]) \<and>
         (run_session cfg env inp st w1 = (Inr u, w2) \<longrightarrow>
            captured (events_since w1 w2) =
              [get_base_filename_for_images (REAL_PATH cfg) (now inp) @ ''/1of1.jpg'']) \<and>
         (poll_cycle cfg env inp w = (Inr Capture, w1) \<and>
          run_session cfg env inp st w1 = (Inr u, w2) \<and> TESTMODE_AUTOPRESS_BUTTON cfg \<longrightarrow>
            main_loop cfg env (inp # rest) st w = (Inr (Broke, st), w2)) \<and>
         (poll_cycle cfg env inp w = (Inr Capture, w1) \<and>
          run_session cfg env inp st w1 = (Inr u, w2) \<and> \<not> TESTMODE_AUTOPRESS_BUTTON cfg \<and>
          show_intro cfg env w2 = (Inr ovs, w3) \<longrightarrow>
            main_loop cfg env (inp # rest) st w =
              main_loop cfg env rest (st\<lparr>overlay_1 := fst ovs, overlay_2 := snd ovs\<rparr>)
                (w3\<lparr>in_waiting := 0,
                    trace := trace w3 @ [Print ''Press the button to take a photo'',
                                         ResetInputBuffer]\<rparr>))"
proof -
  have t: "total_pics cfg = 1" and d: "prep_delay cfg = 1"
    using assms by (simp_all add: total_pics_def prep_delay_def)
  have p: "trace w' = trace w @
              [AddOverlay (next_handle w) (REAL_PATH cfg @ ''/assets/get_ready.png''),
               SetLayer (next_handle w) 3, Sleep 1, RemoveOverlay (next_handle w)]"
    if "prep_for_photo_screen cfg env n w = (Inr u, w')"
    using prep_for_photo_screen_events [OF _ that] d by simp
  have c: "captured (events_since w1 w2) =
              [get_base_filename_for_images (REAL_PATH cfg) (now inp) @ ''/1of1.jpg'']"
    if "run_session cfg env inp st w1 = (Inr u, w2)"
    using run_session_captured [OF that] t
    by (simp add: upto.simps photo_filename_def str_int_321)
  show ?thesis
    using t d p c main_loop_after_session [of cfg env inp w w1 st u w2]
    by (intro conjI impI) (simp_all del: main_loop.simps)
qed

lemma test_poll: "poll_cycle test_config calm_env quiet ready_world = (Inr Capture, test_after_poll)"
proof -
  have "fst (poll_cycle test_config calm_env quiet ready_world) = Inr Capture"
    by (simp add: io_eval py_eval ex_eval)
  then show ?thesis by (simp add: test_after_poll_def prod_eq_iff)
qed

lemma test_session:
  "run_session test_config calm_env quiet intro_shown test_after_poll = (Inr (), test_after_session)"
proof -
  have "fst (run_session test_config calm_env quiet intro_shown test_after_poll) = Inr ()"
    by (simp add: io_eval py_eval ex_eval)
  then show ?thesis by (simp add: test_after_session_def prod_eq_iff)
qed

lemma fast_prep:
  "prep_for_photo_screen fast_config calm_env 1 ready_world =
     (Inr (), snd (prep_for_photo_screen fast_config calm_env 1 ready_world))"
proof -
  have "fst (prep_for_photo_screen fast_config calm_env 1 ready_world) = Inr ()"
    by (simp add: io_eval py_eval ex_eval)
  then show ?thesis by (simp add: prod_eq_iff)
qed

lemma fast_flags:
  "TESTMODE_FAST fast_config" "TESTMODE_FAST test_config"
  "TESTMODE_AUTOPRESS_BUTTON test_config" "\<not> TESTMODE_AUTOPRESS_BUTTON fast_config"
  "next_handle ready_world = 2" "REAL_PATH fast_config = ''/pi''"
  "get_base_filename_for_images (REAL_PATH fast_config) (now busy_press) =
     ''/pi/photos/2017-12-31_23-59-59''"
  by (simp_all add: io_eval py_eval ex_eval)

theorem fast_mode_one_photo_witness:
  "TESTMODE_FAST fast_config \<and> \<not> TESTMODE_AUTOPRESS_BUTTON fast_config \<and>
   total_pics fast_config = 1 \<and> prep_delay fast_config = 1 \<and>
   prep_for_photo_screen fast_config calm_env 1 ready_world =
     (Inr (), snd (prep_for_photo_screen fast_config calm_env 1 ready_world)) \<and>
   trace (snd (prep_for_photo_screen fast_config calm_env 1 ready_world)) =
     trace ready_world @
       [AddOverlay 2 ''/pi/assets/get_ready.png'', SetLayer 2 3, Sleep 1, RemoveOverlay 2] \<and>
   poll_cycle fast_config calm_env busy_press ready_world = (Inr Capture, after_poll) \<and>
   run_session fast_config calm_env busy_press intro_shown after_poll = (Inr (), after_session) \<and>
   show_intro fast_config calm_env after_session = (Inr (Renderer 7, Renderer 8), after_intro) \<and>
   captured (events_since after_poll after_session) = [''/pi/photos/2017-12-31_23-59-59/1of1.jpg''] \<and>
   main_loop fast_config calm_env [busy_press, quiet] intro_shown ready_world =
     main_loop fast_config calm_env [quiet]
       (intro_shown\<lparr>overlay_1 := Renderer 7, overlay_2 := Renderer 8\<rparr>)
       (after_intro\<lparr>in_waiting := 0,
          trace := trace after_intro @ [Print ''Press the button to take a photo'',
                                        ResetInputBuffer]\<rparr>) \<and>
   TESTMODE_FAST test_config \<and> TESTMODE_AUTOPRESS_BUTTON test_config \<and>
   poll_cycle test_config calm_env quiet ready_world = (Inr Capture, test_after_poll) \<and>
   run_session test_config calm_env quiet intro_shown test_after_poll =
     (Inr (), test_after_session) \<and>
   main_loop test_config calm_env [quiet, quiet] intro_shown ready_world =
     (Inr (Broke, intro_shown), test_after_session)"
  using fast_flags fast_prep fast_poll fast_session fast_intro test_poll test_session
    fast_mode_one_photo [OF fast_flags(1), where env = calm_env and n = 1 and w = ready_world
      and u = "()" and w' = "snd (prep_for_photo_screen fast_config calm_env 1 ready_world)"
      and inp = busy_press and st = intro_shown and ?w1.0 = after_poll and ?w2.0 = after_session
      and rest = "[quiet]" and ovs = "(Renderer 7, Renderer 8)" and ?w3.0 = after_intro]
    fast_mode_one_photo [OF fast_flags(2), where env = calm_env and n = 1 and w = ready_world
      and u = "()" and w' = ready_world
      and inp = quiet and st = intro_shown and ?w1.0 = test_after_poll
      and ?w2.0 = test_after_session
      and rest = "[quiet]" and ovs = "(Renderer 7, Renderer 8)" and ?w3.0 = after_intro]
  by (simp del: main_loop.simps)

text \<open>
  Claim C4 as it is stated fails: with the fast flag set and the auto-press flag off, a run
  in which the button is pressed once captures its one photo, shows the intro overlays
  again and is polling, with the camera still open: the process has not ended.
\<close>

theorem fast_flag_alone_keeps_polling:
  "TESTMODE_FAST fast_config \<and>
   fst (program fast_config calm_env [press] (initial_world ''/pi'')) = StillPolling \<and>
   captured (trace (snd (program fast_config calm_env [press] (initial_world ''/pi'')))) =
     [''/pi/photos/2017-12-31_23-59-59/1of1.jpg''] \<and>
   map ov_source (overlays (snd (program fast_config calm_env [press] (initial_world ''/pi'')))) =
     [''/pi/assets/intro_2.png'', ''/pi/assets/intro_1.png''] \<and>
   \<not> camera_closed (snd (program fast_config calm_env [press] (initial_world ''/pi'')))"
  by (simp add: io_eval py_eval ex_eval)

end
